theory Spec2Isabelle
  imports Main "HOL-Library.Char_ord"
begin

section \<open>OpenStack cluster teardown: \<open>pkg/destroy/openstack/openstack.go\<close>\<close>

text \<open>
  The destroyer finds the resources of one cluster by their tags and deletes them.
  Strings are byte lists, a Go \<open>map[string]string\<close> that is only looked up is a
  partial function, and a Go map that is ranged over is an association list with one
  entry per key, the list order standing for the (unspecified) iteration order.
\<close>

subsection \<open>Filter and tag matching\<close>

type_synonym Filter = "(string \<times> string) list"

record ObjectWithTags =
  ID :: string
  Tags :: "string \<rightharpoonup> string"

text \<open>\<open>m[key]\<close> on a Go map of strings: the empty string when the key is absent.\<close>

definition index_or_zero :: "(string \<rightharpoonup> string) \<Rightarrow> string \<Rightarrow> string" where
  "index_or_zero m key = (case m key of None \<Rightarrow> [] | Some v \<Rightarrow> v)"

text \<open>The inner loop of the first pass: \<open>break\<close> with \<open>allTagsFound = false\<close> at the
  first filter key the object lacks.\<close>

fun allTagsFound :: "Filter \<Rightarrow> (string \<rightharpoonup> string) \<Rightarrow> bool" where
  "allTagsFound [] tags = True"
| "allTagsFound ((key, val) # rest) tags =
     (if tags key = None then False else allTagsFound rest tags)"

text \<open>The inner loop of the second pass: \<open>break\<close> with \<open>valuesMatch = false\<close> at the
  first filter key whose value differs.\<close>

fun valuesMatch :: "Filter \<Rightarrow> (string \<rightharpoonup> string) \<Rightarrow> bool" where
  "valuesMatch [] tags = True"
| "valuesMatch ((key, val) # rest) tags =
     (if index_or_zero tags key \<noteq> val then False else valuesMatch rest tags)"

text \<open>The two outer loops, each appending the objects that pass to its result slice.\<close>

fun withAllTags :: "Filter \<Rightarrow> ObjectWithTags list \<Rightarrow> ObjectWithTags list \<Rightarrow> ObjectWithTags list" where
  "withAllTags filters [] objectsWithTags = objectsWithTags"
| "withAllTags filters (object # rest) objectsWithTags =
     withAllTags filters rest
       (if allTagsFound filters (Tags object) then objectsWithTags @ [object]
        else objectsWithTags)"

fun withValues :: "Filter \<Rightarrow> ObjectWithTags list \<Rightarrow> ObjectWithTags list \<Rightarrow> ObjectWithTags list" where
  "withValues filters [] filteredObjects = filteredObjects"
| "withValues filters (object # rest) filteredObjects =
     withValues filters rest
       (if valuesMatch filters (Tags object) then filteredObjects @ [object]
        else filteredObjects)"

definition filterObjects :: "ObjectWithTags list \<Rightarrow> Filter \<Rightarrow> ObjectWithTags list" where
  "filterObjects osObjects filters =
     (let objectsWithTags = withAllTags filters osObjects []
      in withValues filters objectsWithTags [])"

text \<open>What the specification asks of a matching object: every filter entry is a tag
  of the object, with the same value.\<close>

definition matches :: "Filter \<Rightarrow> ObjectWithTags \<Rightarrow> bool" where
  "matches filters object = (\<forall>(key, val) \<in> set filters. Tags object key = Some val)"

subsection \<open>Provider responses\<close>

text \<open>
  Every call to the cloud either succeeds or returns an error. The errors the code tells
  apart are an unexpected HTTP status (\<open>gophercloud.ResponseCodeIs\<close>), a missing service
  endpoint (\<open>gophercloud.ErrEndpointNotFound\<close>) and the backoff's timeout
  (\<open>wait.ErrWaitTimeout\<close>); \<open>Errorf\<close> is an error built by \<open>fmt.Errorf\<close> without
  \<open>%w\<close> and \<open>Wrapped\<close> one built with it.
\<close>

datatype error =
    ResponseCode nat
  | ErrEndpointNotFound
  | ErrWaitTimeout
  | Errorf string
  | Wrapped string error

definition StatusUnauthorized :: nat where "StatusUnauthorized = 401"
definition StatusForbidden :: nat where "StatusForbidden = 403"
definition StatusNotFound :: nat where "StatusNotFound = 404"
definition StatusConflict :: nat where "StatusConflict = 409"

text \<open>\<open>gophercloud.ResponseCodeIs\<close> and the \<open>errors.As\<close> test for a missing endpoint
  both look through the errors wrapped with \<open>%w\<close>.\<close>

fun ResponseCodeIs :: "error \<Rightarrow> nat \<Rightarrow> bool" where
  "ResponseCodeIs (ResponseCode actual) status = (actual = status)"
| "ResponseCodeIs (Wrapped msg err) status = ResponseCodeIs err status"
| "ResponseCodeIs err status = False"

fun AsErrEndpointNotFound :: "error \<Rightarrow> bool" where
  "AsErrEndpointNotFound ErrEndpointNotFound = True"
| "AsErrEndpointNotFound (Wrapped msg err) = AsErrEndpointNotFound err"
| "AsErrEndpointNotFound err = False"

text \<open>
  Every task starts by building a service client, listing all pages and extracting the
  records. Each of the three steps can fail; \<open>Listed\<close> carries the records otherwise.
\<close>

datatype 'a listing =
    ClientError error
  | PagesError error
  | ExtractError error
  | Listed "'a list"

text \<open>Three answers to a delete or update call for a resource ID, used in the
  examples: done, 404 Not Found and 409 Conflict.\<close>

definition deleted_ok :: "string \<Rightarrow> error option" where
  "deleted_ok resourceID = None"

definition not_found :: "string \<Rightarrow> error option" where
  "not_found resourceID = Some (ResponseCode 404)"

definition in_use :: "string \<Rightarrow> error option" where
  "in_use resourceID = Some (ResponseCode 409)"

text \<open>The \<open>(bool, error)\<close> a task returns.\<close>

type_synonym task_result = "bool \<times> error option"

subsection \<open>Strings\<close>

text \<open>\<open>strings.HasPrefix\<close>.\<close>

definition HasPrefix :: "string \<Rightarrow> string \<Rightarrow> bool" where
  "HasPrefix s pre = (length pre \<le> length s \<and> take (length pre) s = pre)"

text \<open>\<open>strings.ToLower\<close> on ASCII strings. The tasks below take the lower-casing
  function as an argument, so that what is proved of them holds for Go's Unicode-aware
  one as well.\<close>

definition asciiToLower :: "string \<Rightarrow> string" where
  "asciiToLower s =
     map (\<lambda>c. if CHR ''A'' \<le> c \<and> c \<le> CHR ''Z'' then char_of (of_char c + (32::nat)) else c) s"

subsection \<open>The cluster ID of a filter\<close>

text \<open>
  \<open>deleteServerGroups\<close>, \<open>deleteVolumes\<close>, \<open>deleteVolumeSnapshots\<close> and \<open>deleteShares\<close>
  start with the same loop: the value of the first filter key that lower-cases to
  \<open>openshiftclusterid\<close>, and the zero value of \<open>var clusterID string\<close> when there is none.
\<close>

fun clusterIDOf :: "(string \<Rightarrow> string) \<Rightarrow> Filter \<Rightarrow> string" where
  "clusterIDOf ToLower [] = []"
| "clusterIDOf ToLower ((k, v) # rest) =
     (if ToLower k = ''openshiftclusterid'' then v else clusterIDOf ToLower rest)"

subsection \<open>deleteServers\<close>

record Server =
  Server_ID :: string
  Server_Metadata :: "string \<rightharpoonup> string"

definition serverObjects :: "Server list \<Rightarrow> ObjectWithTags list" where
  "serverObjects allServers =
     map (\<lambda>server. \<lparr>ID = Server_ID server, Tags = Server_Metadata server\<rparr>) allServers"

text \<open>The deletion loop. \<open>delete\<close> is the provider's answer to the delete call for an
  ID; the state is \<open>numberDeleted\<close> and the IDs a delete call was issued for.\<close>

fun deleteServersLoop ::
  "(string \<Rightarrow> error option) \<Rightarrow> ObjectWithTags list \<Rightarrow> nat \<times> string list \<Rightarrow> nat \<times> string list" where
  "deleteServersLoop delete [] st = st"
| "deleteServersLoop delete (server # rest) (numberDeleted, calls) =
     (case delete (ID server) of
        Some err \<Rightarrow>
          if \<not> ResponseCodeIs err StatusNotFound
          then deleteServersLoop delete rest (numberDeleted, calls @ [ID server])
          else deleteServersLoop delete rest (numberDeleted + 1, calls @ [ID server])
      | None \<Rightarrow> deleteServersLoop delete rest (numberDeleted + 1, calls @ [ID server]))"

definition deleteServers ::
  "Filter \<Rightarrow> Server listing \<Rightarrow> (string \<Rightarrow> error option) \<Rightarrow> task_result" where
  "deleteServers filters listing delete =
     (case listing of
        Listed allServers \<Rightarrow>
          (let filteredServers = filterObjects (serverObjects allServers) filters;
               numberToDelete = length filteredServers;
               numberDeleted = fst (deleteServersLoop delete filteredServers (0, []))
           in (numberDeleted = numberToDelete, None))
      | _ \<Rightarrow> (False, None))"

subsection \<open>deleteServerGroups\<close>

record ServerGroup =
  ServerGroup_ID :: string
  ServerGroup_Name :: string

definition filteredGroups :: "(string \<Rightarrow> string) \<Rightarrow> Filter \<Rightarrow> ServerGroup list \<Rightarrow> ServerGroup list" where
  "filteredGroups ToLower filters allServerGroups =
     (let clusterID = clusterIDOf ToLower filters
      in filter (\<lambda>serverGroup. HasPrefix (ServerGroup_Name serverGroup) clusterID) allServerGroups)"

text \<open>The deletion loop as the source has it: the \<open>continue\<close> that skips
  \<open>numberDeleted++\<close> is taken when the response code \<^emph>\<open>is\<close> 404.\<close>

fun deleteServerGroupsLoop ::
  "(string \<Rightarrow> error option) \<Rightarrow> ServerGroup list \<Rightarrow> nat \<times> string list \<Rightarrow> nat \<times> string list" where
  "deleteServerGroupsLoop delete [] st = st"
| "deleteServerGroupsLoop delete (serverGroup # rest) (numberDeleted, calls) =
     (case delete (ServerGroup_ID serverGroup) of
        Some err \<Rightarrow>
          if ResponseCodeIs err StatusNotFound
          then deleteServerGroupsLoop delete rest (numberDeleted, calls @ [ServerGroup_ID serverGroup])
          else deleteServerGroupsLoop delete rest (numberDeleted + 1, calls @ [ServerGroup_ID serverGroup])
      | None \<Rightarrow>
          deleteServerGroupsLoop delete rest (numberDeleted + 1, calls @ [ServerGroup_ID serverGroup]))"

definition deleteServerGroups ::
  "(string \<Rightarrow> string) \<Rightarrow> Filter \<Rightarrow> ServerGroup listing \<Rightarrow> (string \<Rightarrow> error option) \<Rightarrow> task_result" where
  "deleteServerGroups ToLower filters listing delete =
     (case listing of
        Listed allServerGroups \<Rightarrow>
          (let groups = filteredGroups ToLower filters allServerGroups;
               numberToDelete = length groups;
               numberDeleted = fst (deleteServerGroupsLoop delete groups (0, []))
           in (numberDeleted = numberToDelete, None))
      | _ \<Rightarrow> (False, None))"

text \<open>The IDs \<open>deleteServerGroups\<close> issues a delete call for.\<close>

definition deleteServerGroups_calls ::
  "(string \<Rightarrow> string) \<Rightarrow> Filter \<Rightarrow> ServerGroup listing \<Rightarrow> (string \<Rightarrow> error option) \<Rightarrow> string list" where
  "deleteServerGroups_calls ToLower filters listing delete =
     (case listing of
        Listed allServerGroups \<Rightarrow>
          snd (deleteServerGroupsLoop delete (filteredGroups ToLower filters allServerGroups) (0, []))
      | _ \<Rightarrow> [])"

subsection \<open>deleteVolumes\<close>

record Volume =
  Volume_ID :: string
  Volume_Name :: string
  Volume_Metadata :: "string \<rightharpoonup> string"

definition cinderCSIClusterIDKey :: string where
  "cinderCSIClusterIDKey = ''cinder.csi.openstack.org/cluster''"

text \<open>The selection loop: a volume is appended once for its name and once more for
  its CSI metadata.\<close>

fun volumeIDs :: "string \<Rightarrow> Volume list \<Rightarrow> string list \<Rightarrow> string list" where
  "volumeIDs clusterID [] ids = ids"
| "volumeIDs clusterID (volume # rest) ids =
     (let ids1 = (if HasPrefix (Volume_Name volume) clusterID then ids @ [Volume_ID volume] else ids);
          ids2 = (case Volume_Metadata volume cinderCSIClusterIDKey of
                    Some val \<Rightarrow> if val = clusterID then ids1 @ [Volume_ID volume] else ids1
                  | None \<Rightarrow> ids1)
      in volumeIDs clusterID rest ids2)"

fun deleteVolumesLoop ::
  "(string \<Rightarrow> error option) \<Rightarrow> string list \<Rightarrow> nat \<times> string list \<Rightarrow> nat \<times> string list" where
  "deleteVolumesLoop delete [] st = st"
| "deleteVolumesLoop delete (volumeID # rest) (numberDeleted, calls) =
     (case delete volumeID of
        Some err \<Rightarrow>
          if \<not> ResponseCodeIs err StatusNotFound
          then deleteVolumesLoop delete rest (numberDeleted, calls @ [volumeID])
          else deleteVolumesLoop delete rest (numberDeleted + 1, calls @ [volumeID])
      | None \<Rightarrow> deleteVolumesLoop delete rest (numberDeleted + 1, calls @ [volumeID]))"

definition deleteVolumes ::
  "(string \<Rightarrow> string) \<Rightarrow> Filter \<Rightarrow> Volume listing \<Rightarrow> (string \<Rightarrow> error option) \<Rightarrow> task_result" where
  "deleteVolumes ToLower filters listing delete =
     (case listing of
        Listed allVolumes \<Rightarrow>
          (let ids = volumeIDs (clusterIDOf ToLower filters) allVolumes [];
               numberToDelete = length ids;
               numberDeleted = fst (deleteVolumesLoop delete ids (0, []))
           in (numberDeleted = numberToDelete, None))
      | _ \<Rightarrow> (False, None))"

definition deleteVolumes_calls ::
  "(string \<Rightarrow> string) \<Rightarrow> Filter \<Rightarrow> Volume listing \<Rightarrow> (string \<Rightarrow> error option) \<Rightarrow> string list" where
  "deleteVolumes_calls ToLower filters listing delete =
     (case listing of
        Listed allVolumes \<Rightarrow>
          snd (deleteVolumesLoop delete (volumeIDs (clusterIDOf ToLower filters) allVolumes []) (0, []))
      | _ \<Rightarrow> [])"

subsection \<open>Retry with backoff\<close>

text \<open>
  Modelled from the spec: \<open>wait.ExponentialBackoff\<close> of \<open>k8s.io/apimachinery\<close> is not
  part of the sources. It invokes the condition up to \<open>Steps\<close> times, sleeping in
  between; it returns the condition's error as soon as one is returned, \<open>nil\<close> as soon
  as the condition reports done, and \<open>ErrWaitTimeout\<close> when the steps are used up. The
  condition re-lists the cloud on every invocation, so it is a function of the attempt
  number. The second component is the number of invocations made.
\<close>

fun backoffLoop :: "nat \<Rightarrow> (nat \<Rightarrow> task_result) \<Rightarrow> nat \<Rightarrow> error option \<times> nat" where
  "backoffLoop 0 condition attempt = (Some ErrWaitTimeout, attempt)"
| "backoffLoop (Suc steps) condition attempt =
     (let (ok, err) = condition attempt
      in if err \<noteq> None \<or> ok then (err, Suc attempt)
         else backoffLoop steps condition (Suc attempt))"

definition ExponentialBackoff :: "nat \<Rightarrow> (nat \<Rightarrow> task_result) \<Rightarrow> error option \<times> nat" where
  "ExponentialBackoff steps condition = backoffLoop steps condition 0"

subsection \<open>untagPrimaryNetwork and untagRunner\<close>

record Network =
  Network_ID :: string

text \<open>\<open>listNetworks\<close> answers the list call for a tag, \<open>tagDelete\<close> the
  \<open>attributestags.Delete\<close> call for a network ID and a tag.\<close>

definition untagPrimaryNetwork ::
  "string \<Rightarrow> (string \<Rightarrow> Network listing) \<Rightarrow> (string \<Rightarrow> string \<Rightarrow> error option) \<Rightarrow> task_result" where
  "untagPrimaryNetwork infraID listNetworks tagDelete =
     (let networkTag = infraID @ ''-primaryClusterNetwork''
      in case listNetworks networkTag of
           Listed allNetworks \<Rightarrow>
             if length allNetworks > 1
             then (False, Some (Errorf (''more than one network with tag '' @ networkTag)))
             else if length allNetworks = 0
             then (True, None)
             else (case tagDelete (Network_ID (allNetworks ! 0)) networkTag of
                     Some err \<Rightarrow> (False, None)
                   | None \<Rightarrow> (True, None))
         | _ \<Rightarrow> (False, None))"

text \<open>\<open>untagRunner\<close>: 25 steps; the provider's answers may differ from one attempt to
  the next.\<close>

definition untagRunner ::
  "string \<Rightarrow> (nat \<Rightarrow> string \<Rightarrow> Network listing) \<Rightarrow> (nat \<Rightarrow> string \<Rightarrow> string \<Rightarrow> error option)
     \<Rightarrow> error option \<times> nat" where
  "untagRunner infraID listNetworks tagDelete =
     (let (err, attempts) =
            ExponentialBackoff 25
              (\<lambda>attempt. untagPrimaryNetwork infraID (listNetworks attempt) (tagDelete attempt))
      in case err of
           Some e \<Rightarrow>
             if e = ErrWaitTimeout then (Some e, attempts)
             else (Some (Wrapped ''unrecoverable error: '' e), attempts)
         | None \<Rightarrow> (None, attempts))"

text \<open>Concrete providers for the examples: one network carries the tag, and the
  tag-delete call answers 404.\<close>

definition one_tagged_network :: "string \<Rightarrow> Network listing" where
  "one_tagged_network tag = Listed [\<lparr>Network_ID = ''net-1''\<rparr>]"

definition two_tagged_networks :: "string \<Rightarrow> Network listing" where
  "two_tagged_networks tag = Listed [\<lparr>Network_ID = ''net-1''\<rparr>, \<lparr>Network_ID = ''net-2''\<rparr>]"

definition no_tagged_network :: "string \<Rightarrow> Network listing" where
  "no_tagged_network tag = Listed []"

definition tag_not_found :: "string \<Rightarrow> string \<Rightarrow> error option" where
  "tag_not_found networkID tag = Some (ResponseCode 404)"

definition tag_removed :: "string \<Rightarrow> string \<Rightarrow> error option" where
  "tag_removed networkID tag = None"

definition two_networks_on_third_attempt :: "nat \<Rightarrow> string \<Rightarrow> Network listing" where
  "two_networks_on_third_attempt attempt tag =
     (if attempt < 2 then PagesError (ResponseCode 503) else two_tagged_networks tag)"

definition tag_removed_every_attempt :: "nat \<Rightarrow> string \<Rightarrow> string \<Rightarrow> error option" where
  "tag_removed_every_attempt attempt = tag_removed"

subsection \<open>deleteNetworks and the leftover load balancers\<close>

record LoadBalancer =
  LoadBalancer_ID :: string
  LoadBalancer_Description :: string
  LoadBalancer_VipPortID :: string

record FloatingIP =
  FloatingIP_ID :: string
  FloatingIP_PortID :: string

text \<open>The calls of the network task that change the cloud, in the order issued.
  \<open>DeletePortsByNetwork\<close> stands for the whole of \<open>deletePortsByNetwork\<close>, whose result
  \<open>deleteNetworks\<close> does not use.\<close>

datatype network_call =
    NetworkDelete string
  | FloatingIPDelete string
  | LoadBalancerDelete string
  | DeletePortsByNetwork string

text \<open>The provider's answers: to the delete call for a network, to the listing of the
  load balancers with a VIP on a network (\<open>ClientError\<close> when the load-balancer client
  cannot be built), to the listing of the floating IPs of a port, and to the delete
  calls for a floating IP and for a load balancer.\<close>

record network_provider =
  networkDelete :: "string \<Rightarrow> error option"
  listLoadBalancers :: "string \<Rightarrow> LoadBalancer listing"
  listFloatingIPs :: "string \<Rightarrow> FloatingIP listing"
  floatingIPDelete :: "string \<Rightarrow> error option"
  loadBalancerDelete :: "string \<Rightarrow> error option"

text \<open>A step's calls, followed by the outcome and the calls of what runs after it.\<close>

definition followed_by :: "'c list \<Rightarrow> 'a \<times> 'c list \<Rightarrow> 'a \<times> 'c list" where
  "followed_by cs r = (fst r, cs @ snd r)"

text \<open>\<open>deletePortFIPs\<close>: the first delete error other than not-found is returned.\<close>

fun deletePortFIPsLoop :: "network_provider \<Rightarrow> FloatingIP list \<Rightarrow> error option \<times> network_call list" where
  "deletePortFIPsLoop P [] = (None, [])"
| "deletePortFIPsLoop P (fip # rest) =
     (case floatingIPDelete P (FloatingIP_ID fip) of
        Some err \<Rightarrow>
          if \<not> ResponseCodeIs err StatusNotFound
          then (Some err, [FloatingIPDelete (FloatingIP_ID fip)])
          else followed_by [FloatingIPDelete (FloatingIP_ID fip)] (deletePortFIPsLoop P rest)
      | None \<Rightarrow> followed_by [FloatingIPDelete (FloatingIP_ID fip)] (deletePortFIPsLoop P rest))"

definition deletePortFIPs :: "network_provider \<Rightarrow> string \<Rightarrow> error option \<times> network_call list" where
  "deletePortFIPs P portID =
     (case listFloatingIPs P portID of
        ClientError err \<Rightarrow> (Some err, [])
      | PagesError err \<Rightarrow> (Some err, [])
      | ExtractError err \<Rightarrow> (Some err, [])
      | Listed fips \<Rightarrow> deletePortFIPsLoop P fips)"

text \<open>The loop of \<open>deleteLeftoverLoadBalancers\<close>, from the current value of \<open>deleted\<close>.\<close>

fun leftoverLoop :: "network_provider \<Rightarrow> LoadBalancer list \<Rightarrow> nat \<Rightarrow> nat \<times> network_call list" where
  "leftoverLoop P [] deleted = (deleted, [])"
| "leftoverLoop P (loadbalancer # rest) deleted =
     (if \<not> HasPrefix (LoadBalancer_Description loadbalancer) ''Kubernetes external service''
      then leftoverLoop P rest deleted
      else
        (let (err, fipCalls) = deletePortFIPs P (LoadBalancer_VipPortID loadbalancer)
         in case err of
              Some e \<Rightarrow> followed_by fipCalls (leftoverLoop P rest deleted)
            | None \<Rightarrow>
                (case loadBalancerDelete P (LoadBalancer_ID loadbalancer) of
                   Some err \<Rightarrow>
                     if \<not> ResponseCodeIs err StatusNotFound
                     then followed_by (fipCalls @ [LoadBalancerDelete (LoadBalancer_ID loadbalancer)])
                            (leftoverLoop P rest deleted)
                     else followed_by (fipCalls @ [LoadBalancerDelete (LoadBalancer_ID loadbalancer)])
                            (leftoverLoop P rest (deleted + 1))
                 | None \<Rightarrow>
                     followed_by (fipCalls @ [LoadBalancerDelete (LoadBalancer_ID loadbalancer)])
                       (leftoverLoop P rest (deleted + 1)))))"

text \<open>The numbers in the message of the final error are left out.\<close>

definition deleteLeftoverLoadBalancers ::
  "network_provider \<Rightarrow> string \<Rightarrow> error option \<times> network_call list" where
  "deleteLeftoverLoadBalancers P networkID =
     (case listLoadBalancers P networkID of
        ClientError err \<Rightarrow> if AsErrEndpointNotFound err then (None, []) else (Some err, [])
      | PagesError err \<Rightarrow> (Some err, [])
      | ExtractError err \<Rightarrow> (Some err, [])
      | Listed allLoadBalancers \<Rightarrow>
          (let (deleted, calls) = leftoverLoop P allLoadBalancers 0
           in if deleted \<noteq> length allLoadBalancers
              then (Some (Errorf ''only deleted %d of %d load balancers''), calls)
              else (None, calls)))"

fun deleteNetworksLoop :: "network_provider \<Rightarrow> Network list \<Rightarrow> nat \<Rightarrow> nat \<times> network_call list" where
  "deleteNetworksLoop P [] numberDeleted = (numberDeleted, [])"
| "deleteNetworksLoop P (network # rest) numberDeleted =
     (case networkDelete P (Network_ID network) of
        Some err \<Rightarrow>
          if \<not> ResponseCodeIs err StatusNotFound
          then
            (let (lberr, lbCalls) = deleteLeftoverLoadBalancers P (Network_ID network)
             in case lberr of
                  Some e \<Rightarrow>
                    followed_by (NetworkDelete (Network_ID network) # lbCalls)
                      (deleteNetworksLoop P rest numberDeleted)
                | None \<Rightarrow>
                    followed_by (NetworkDelete (Network_ID network) # lbCalls
                                   @ [DeletePortsByNetwork (Network_ID network)])
                      (deleteNetworksLoop P rest numberDeleted))
          else followed_by [NetworkDelete (Network_ID network)]
                 (deleteNetworksLoop P rest (numberDeleted + 1))
      | None \<Rightarrow>
          followed_by [NetworkDelete (Network_ID network)]
            (deleteNetworksLoop P rest (numberDeleted + 1)))"

definition deleteNetworks :: "Network listing \<Rightarrow> network_provider \<Rightarrow> task_result \<times> network_call list" where
  "deleteNetworks listing P =
     (case listing of
        Listed allNetworks \<Rightarrow>
          (let numberToDelete = length allNetworks;
               (numberDeleted, calls) = deleteNetworksLoop P allNetworks 0
           in ((numberDeleted = numberToDelete, None), calls))
      | _ \<Rightarrow> ((False, None), []))"

text \<open>
  In the words of the specification: the calls made for one listed load balancer (none
  unless its description has the prefix; else the deletion of the floating IPs of its
  VIP port and then, if that went through, its own deletion), and whether it counts as
  deleted.
\<close>

definition leftover_calls :: "network_provider \<Rightarrow> LoadBalancer \<Rightarrow> network_call list" where
  "leftover_calls P lb =
     (if HasPrefix (LoadBalancer_Description lb) ''Kubernetes external service''
      then snd (deletePortFIPs P (LoadBalancer_VipPortID lb))
           @ (if fst (deletePortFIPs P (LoadBalancer_VipPortID lb)) = None
              then [LoadBalancerDelete (LoadBalancer_ID lb)] else [])
      else [])"

definition leftover_deleted :: "network_provider \<Rightarrow> LoadBalancer \<Rightarrow> bool" where
  "leftover_deleted P lb =
     (HasPrefix (LoadBalancer_Description lb) ''Kubernetes external service''
      \<and> fst (deletePortFIPs P (LoadBalancer_VipPortID lb)) = None
      \<and> (case loadBalancerDelete P (LoadBalancer_ID lb) of
            None \<Rightarrow> True
          | Some err \<Rightarrow> ResponseCodeIs err StatusNotFound))"

text \<open>What the claim takes to be enough for the load-balancer step to succeed: each
  listed load balancer that has the description prefix was deleted.\<close>

definition every_prefixed_deleted :: "network_provider \<Rightarrow> LoadBalancer list \<Rightarrow> bool" where
  "every_prefixed_deleted P lbs =
     list_all (\<lambda>lb. HasPrefix (LoadBalancer_Description lb) ''Kubernetes external service''
                       \<longrightarrow> leftover_deleted P lb) lbs"

text \<open>A network in use by a leftover load balancer with one floating IP and by a
  load balancer of the user; every delete call but the network's succeeds.\<close>

definition mixed_lbs :: "LoadBalancer list" where
  "mixed_lbs =
     [\<lparr>LoadBalancer_ID = ''lb-1'',
       LoadBalancer_Description = ''Kubernetes external service ns/svc from cluster abc'',
       LoadBalancer_VipPortID = ''port-1''\<rparr>,
      \<lparr>LoadBalancer_ID = ''lb-2'', LoadBalancer_Description = ''user load balancer'',
       LoadBalancer_VipPortID = ''port-2''\<rparr>]"

definition list_mixed_lbs :: "string \<Rightarrow> LoadBalancer listing" where
  "list_mixed_lbs networkID = Listed mixed_lbs"

definition list_leftover_lb :: "string \<Rightarrow> LoadBalancer listing" where
  "list_leftover_lb networkID = Listed [hd mixed_lbs]"

definition one_fip_per_port :: "string \<Rightarrow> FloatingIP listing" where
  "one_fip_per_port portID =
     Listed [\<lparr>FloatingIP_ID = ''fip-of-'' @ portID, FloatingIP_PortID = portID\<rparr>]"

definition mixed_provider :: network_provider where
  "mixed_provider =
     \<lparr>networkDelete = in_use, listLoadBalancers = list_mixed_lbs,
      listFloatingIPs = one_fip_per_port, floatingIPDelete = deleted_ok,
      loadBalancerDelete = deleted_ok\<rparr>"

definition leftover_provider :: network_provider where
  "leftover_provider =
     \<lparr>networkDelete = in_use, listLoadBalancers = list_leftover_lb,
      listFloatingIPs = one_fip_per_port, floatingIPDelete = deleted_ok,
      loadBalancerDelete = deleted_ok\<rparr>"

subsection \<open>The ports worker\<close>

text \<open>
  \<open>cloudProviderSGNamePattern\<close> is the regular expression
  \<^verbatim>\<open>^lb-sg-[0-9a-fA-F]{8}-[0-9a-fA-F]{4}-[0-9a-fA-F]{4}-[0-9a-fA-F]{4}-[0-9a-fA-F]{12}\<close>:
  a sequence of literal characters and hexadecimal digits, anchored at the start of the
  name and open at its end. \<open>MatchString\<close> is \<open>regexp.MatchString\<close> for such a pattern.
\<close>

datatype pattern_atom = Lit char | HexDigit

definition cloudProviderSGNamePattern :: "pattern_atom list" where
  "cloudProviderSGNamePattern =
     map Lit ''lb-sg-'' @ replicate 8 HexDigit @ [Lit CHR ''-''] @ replicate 4 HexDigit
     @ [Lit CHR ''-''] @ replicate 4 HexDigit @ [Lit CHR ''-''] @ replicate 4 HexDigit
     @ [Lit CHR ''-''] @ replicate 12 HexDigit"

fun matchAtom :: "pattern_atom \<Rightarrow> char \<Rightarrow> bool" where
  "matchAtom (Lit l) c = (c = l)"
| "matchAtom HexDigit c =
     ((CHR ''0'' \<le> c \<and> c \<le> CHR ''9'') \<or> (CHR ''a'' \<le> c \<and> c \<le> CHR ''f'')
      \<or> (CHR ''A'' \<le> c \<and> c \<le> CHR ''F''))"

fun MatchString :: "pattern_atom list \<Rightarrow> string \<Rightarrow> bool" where
  "MatchString [] s = True"
| "MatchString (a # as) [] = False"
| "MatchString (a # as) (c # cs) = (matchAtom a c \<and> MatchString as cs)"

record IP =
  IP_SubnetID :: string
  IP_IPAddress :: string

record Port =
  Port_ID :: string
  Port_SecurityGroups :: "string list"
  Port_FixedIPs :: "IP list"

record SecGroup =
  SecGroup_ID :: string
  SecGroup_Name :: string

datatype port_call =
    FloatingIPUpdate string
  | PortUpdateSecurityGroups string "string list"
  | SecGroupDelete string
  | PortDelete string
  | DeleteAssociatedTrunk string

text \<open>The provider's answers to the floating-IP update, the security-group delete and
  the port delete; the result of the port update is discarded by the source.\<close>

record port_provider =
  floatingIPUpdate :: "string \<Rightarrow> error option"
  secGroupDelete :: "string \<Rightarrow> error option"
  portDelete :: "string \<Rightarrow> error option"

text \<open>The loop over \<open>assignedSGs\<close>. It looks the group up in \<open>sgByID\<close>, deletes it only
  if its name matches, and drops it from \<open>sgByID\<close> when the delete call succeeded or
  answered not-found; any other answer is at most logged.\<close>

fun securityGroupsLoop ::
  "port_provider \<Rightarrow> string list \<Rightarrow> (string \<rightharpoonup> SecGroup) \<Rightarrow> (string \<rightharpoonup> SecGroup) \<times> port_call list" where
  "securityGroupsLoop P [] sgByID = (sgByID, [])"
| "securityGroupsLoop P (groupID # rest) sgByID =
     (case sgByID groupID of
        Some secGroup \<Rightarrow>
          if MatchString cloudProviderSGNamePattern (SecGroup_Name secGroup)
          then
            (case secGroupDelete P groupID of
               None \<Rightarrow>
                 followed_by [SecGroupDelete groupID]
                   (securityGroupsLoop P rest (sgByID(groupID := None)))
             | Some err \<Rightarrow>
                 if ResponseCodeIs err StatusNotFound
                 then followed_by [SecGroupDelete groupID]
                        (securityGroupsLoop P rest (sgByID(groupID := None)))
                 else followed_by [SecGroupDelete groupID] (securityGroupsLoop P rest sgByID))
          else securityGroupsLoop P rest sgByID
      | None \<Rightarrow> securityGroupsLoop P rest sgByID)"

text \<open>The first step for a port: if a floating IP is associated with it, dissociate
  it. The result says whether the worker goes on to the next port (\<open>continue\<close>), which it
  does when the update failed with an error other than not-found.\<close>

definition dissociateFloatingIP ::
  "port_provider \<Rightarrow> (string \<rightharpoonup> FloatingIP) \<Rightarrow> Port \<Rightarrow> bool \<times> port_call list" where
  "dissociateFloatingIP P fipByPort port =
     (case fipByPort (Port_ID port) of
        Some fip \<Rightarrow>
          (case floatingIPUpdate P (FloatingIP_ID fip) of
             Some err \<Rightarrow>
               (\<not> ResponseCodeIs err StatusNotFound, [FloatingIPUpdate (FloatingIP_ID fip)])
           | None \<Rightarrow> (False, [FloatingIPUpdate (FloatingIP_ID fip)]))
      | None \<Rightarrow> (False, []))"

text \<open>The body of \<open>deletePortsWorker\<close> over the ports the worker receives, from the
  current \<open>sgByID\<close> and \<open>localDeleted\<close>.\<close>

fun deletePortsWorker ::
  "port_provider \<Rightarrow> (string \<rightharpoonup> FloatingIP) \<Rightarrow> Port list \<Rightarrow> (string \<rightharpoonup> SecGroup) \<Rightarrow> nat
     \<Rightarrow> nat \<times> port_call list" where
  "deletePortsWorker P fipByPort [] sgByID localDeleted = (localDeleted, [])"
| "deletePortsWorker P fipByPort (port # rest) sgByID localDeleted =
     (let (skip, fipCalls) = dissociateFloatingIP P fipByPort port
      in if skip
         then followed_by fipCalls (deletePortsWorker P fipByPort rest sgByID localDeleted)
         else
           (let assignedSGs = Port_SecurityGroups port;
                (sgByID', sgCalls) = securityGroupsLoop P assignedSGs sgByID;
                calls = fipCalls @ [PortUpdateSecurityGroups (Port_ID port) []] @ sgCalls
                          @ [PortDelete (Port_ID port)]
            in case portDelete P (Port_ID port) of
                 Some err \<Rightarrow>
                   followed_by (calls @ [DeleteAssociatedTrunk (Port_ID port)])
                     (deletePortsWorker P fipByPort rest sgByID' localDeleted)
               | None \<Rightarrow>
                   followed_by calls
                     (deletePortsWorker P fipByPort rest sgByID' (localDeleted + 1))))"

text \<open>A port with a managed and an unrelated security group; the delete call for a
  security group answers that the group is still in use.\<close>

definition example_port :: Port where
  "example_port =
     \<lparr>Port_ID = ''port-1'', Port_SecurityGroups = [''sg-lb'', ''sg-user''], Port_FixedIPs = []\<rparr>"

definition example_sgByID :: "string \<rightharpoonup> SecGroup" where
  "example_sgByID =
     [''sg-lb'' \<mapsto> \<lparr>SecGroup_ID = ''sg-lb'',
                     SecGroup_Name = ''lb-sg-0a1B2c3D-4e5f-6A7B-8c9d-0123456789ab-ns-svc''\<rparr>,
      ''sg-user'' \<mapsto> \<lparr>SecGroup_ID = ''sg-user'', SecGroup_Name = ''lb-sg-of-the-user''\<rparr>]"

definition example_port_provider :: port_provider where
  "example_port_provider =
     \<lparr>floatingIPUpdate = deleted_ok, secGroupDelete = in_use, portDelete = deleted_ok\<rparr>"

subsection \<open>The bulk deletion loop of deleteContainers\<close>

text \<open>The response of \<open>objects.BulkDelete\<close>; an entry of \<open>Errors\<close> is a list whose first
  two strings are an object name and a message.\<close>

record BulkDeleteResponse =
  NumberDeleted :: int
  NumberNotFound :: int
  Errors :: "string list list"

text \<open>How a run of the loop ends: the queued function returns, a slice index is out
  of range, or the run is cut off after the given number of iterations.\<close>

datatype loop_end = Returned | Panicked | OutOfFuel

text \<open>The errors sent to \<open>errCh\<close> for \<open>resp.Errors\<close>; \<open>None\<close> when an entry has fewer
  than two strings, where \<open>objectError[1]\<close> panics.\<close>

fun objectErrors :: "string list list \<Rightarrow> error list option" where
  "objectErrors [] = Some []"
| "objectErrors (objectError # rest) =
     (if length objectError < 2 then None
      else (case objectErrors rest of
              None \<Rightarrow> None
            | Some errs \<Rightarrow>
                Some (Errorf (''cannot delete object '' @ objectError ! 0 @ '': '' @ objectError ! 1)
                      # errs)))"

text \<open>
  The function queued for one page of object names. \<open>BulkDelete\<close> answers the call
  with a given number of earlier calls and a given batch. The state is \<open>objectsOnPage\<close>,
  the batches sent so far and the errors sent to \<open>errCh\<close> so far. After the errors of
  \<open>resp.Errors\<close> are sent the source logs and falls through to the re-slicing: there is no
  \<open>return\<close> in that branch.
\<close>

fun bulkDeleteLoop ::
  "nat \<Rightarrow> (nat \<Rightarrow> string list \<Rightarrow> error + BulkDeleteResponse) \<Rightarrow> string list
     \<Rightarrow> string list list \<Rightarrow> error list \<Rightarrow> loop_end \<times> string list list \<times> error list" where
  "bulkDeleteLoop fuel BulkDelete objectsOnPage batches errs =
     (if length objectsOnPage > 0
      then
        (case fuel of
           0 \<Rightarrow> (OutOfFuel, batches, errs)
         | Suc fuel' \<Rightarrow>
             (case BulkDelete (length batches) objectsOnPage of
                Inl err \<Rightarrow> (Returned, batches @ [objectsOnPage], errs @ [err])
              | Inr resp \<Rightarrow>
                  (case objectErrors (Errors resp) of
                     None \<Rightarrow> (Panicked, batches @ [objectsOnPage], errs)
                   | Some sent \<Rightarrow>
                       (let processed = NumberDeleted resp + NumberNotFound resp
                        in if processed < 0 \<or> int (length objectsOnPage) < processed
                           then (Panicked, batches @ [objectsOnPage], errs @ sent)
                           else bulkDeleteLoop fuel' BulkDelete (drop (nat processed) objectsOnPage)
                                  (batches @ [objectsOnPage]) (errs @ sent)))))
      else (Returned, batches, errs))"

declare bulkDeleteLoop.simps [simp del]

text \<open>Two object stores. The first deletes one object per call and reports an error
  for the second object in its first answer. The second never deletes anything and
  reports an error for the first object of the batch in every answer.\<close>

definition one_error_then_ok :: "nat \<Rightarrow> string list \<Rightarrow> error + BulkDeleteResponse" where
  "one_error_then_ok earlier batch =
     Inr \<lparr>NumberDeleted = 1, NumberNotFound = 0,
          Errors = (if earlier = 0 then [ [''b'', ''409 Conflict''] ] else [])\<rparr>"

definition always_error :: "nat \<Rightarrow> string list \<Rightarrow> error + BulkDeleteResponse" where
  "always_error earlier batch =
     Inr \<lparr>NumberDeleted = 0, NumberNotFound = 0, Errors = [ [hd batch, ''409 Conflict''] ]\<rparr>"

subsection \<open>removeRouterInterfaces\<close>

record Router =
  Router_ID :: string
  Router_Tags :: "string list"

record Subnet =
  Subnet_ID :: string

text \<open>A list call on a client the caller has built: all pages, then the extraction.\<close>

datatype 'a paged =
    PagesFailed error
  | ExtractFailed error
  | Extracted "'a list"

fun isClusterRouter :: "string \<Rightarrow> string list \<Rightarrow> bool" where
  "isClusterRouter clusterTag [] = False"
| "isClusterRouter clusterTag (tag # tags) =
     (if clusterTag = tag then True else isClusterRouter clusterTag tags)"

fun isClusterSubnet :: "Subnet list \<Rightarrow> string \<Rightarrow> bool" where
  "isClusterSubnet [] subnetID = False"
| "isClusterSubnet (subnet # subnets) subnetID =
     (if Subnet_ID subnet = subnetID then True else isClusterSubnet subnets subnetID)"

text \<open>The variables of the loop: \<open>numberDeleted\<close>, \<open>customInterfaces\<close>, the
  \<open>removedSubnets\<close> map (absent keys read as \<open>false\<close>), and the subnet IDs a
  \<open>RemoveInterface\<close> call was issued for.\<close>

record removal_state =
  st_numberDeleted :: int
  st_customInterfaces :: "Port list"
  st_removedSubnets :: "string \<Rightarrow> bool"
  st_removeCalls :: "string list"

text \<open>The inner loop, over the fixed IPs of one port. \<open>RemoveInterface\<close> answers the
  call for a subnet ID. \<open>Inl\<close> is the \<open>return false, nil\<close> from inside the loop, with the
  calls issued up to it.\<close>

fun fixedIPsLoop ::
  "bool \<Rightarrow> Subnet list \<Rightarrow> (string \<Rightarrow> error option) \<Rightarrow> Port \<Rightarrow> IP list \<Rightarrow> removal_state
     \<Rightarrow> string list + removal_state" where
  "fixedIPsLoop clusterRouter allSubnets RemoveInterface port [] st = Inr st"
| "fixedIPsLoop clusterRouter allSubnets RemoveInterface port (ip # rest) st =
     (if \<not> clusterRouter \<and> \<not> isClusterSubnet allSubnets (IP_SubnetID ip)
      then fixedIPsLoop clusterRouter allSubnets RemoveInterface port rest
             (st\<lparr>st_customInterfaces := st_customInterfaces st @ [port]\<rparr>)
      else if \<not> st_removedSubnets st (IP_SubnetID ip)
      then
        (case RemoveInterface (IP_SubnetID ip) of
           Some err \<Rightarrow>
             if \<not> ResponseCodeIs err StatusNotFound
             then Inl (st_removeCalls st @ [IP_SubnetID ip])
             else fixedIPsLoop clusterRouter allSubnets RemoveInterface port rest
                    (st\<lparr>st_removedSubnets := (st_removedSubnets st)(IP_SubnetID ip := True),
                        st_numberDeleted := st_numberDeleted st + 1,
                        st_removeCalls := st_removeCalls st @ [IP_SubnetID ip]\<rparr>)
         | None \<Rightarrow>
             fixedIPsLoop clusterRouter allSubnets RemoveInterface port rest
               (st\<lparr>st_removedSubnets := (st_removedSubnets st)(IP_SubnetID ip := True),
                   st_numberDeleted := st_numberDeleted st + 1,
                   st_removeCalls := st_removeCalls st @ [IP_SubnetID ip]\<rparr>))
      else fixedIPsLoop clusterRouter allSubnets RemoveInterface port rest st)"

fun routerPortsLoop ::
  "bool \<Rightarrow> Subnet list \<Rightarrow> (string \<Rightarrow> error option) \<Rightarrow> Port list \<Rightarrow> removal_state
     \<Rightarrow> string list + removal_state" where
  "routerPortsLoop clusterRouter allSubnets RemoveInterface [] st = Inr st"
| "routerPortsLoop clusterRouter allSubnets RemoveInterface (port # rest) st =
     (case fixedIPsLoop clusterRouter allSubnets RemoveInterface port (Port_FixedIPs port) st of
        Inl calls \<Rightarrow> Inl calls
      | Inr st' \<Rightarrow> routerPortsLoop clusterRouter allSubnets RemoveInterface rest st')"

definition clusterTagOf :: "Filter \<Rightarrow> string" where
  "clusterTagOf filters =
     ''openshiftClusterID='' @ index_or_zero (map_of filters) ''openshiftClusterID''"

text \<open>The result and the subnet IDs a \<open>RemoveInterface\<close> call was issued for.\<close>

definition removeRouterInterfaces ::
  "Filter \<Rightarrow> Router \<Rightarrow> Port paged \<Rightarrow> Subnet paged \<Rightarrow> (string \<Rightarrow> error option)
     \<Rightarrow> task_result \<times> string list" where
  "removeRouterInterfaces filters router portsOfRouter taggedSubnets RemoveInterface =
     (case portsOfRouter of
        PagesFailed err \<Rightarrow> ((False, Some (Wrapped ''failed to get ports list: '' err)), [])
      | ExtractFailed err \<Rightarrow> ((False, Some (Wrapped ''failed to extract ports list: '' err)), [])
      | Extracted allPorts \<Rightarrow>
          (case taggedSubnets of
             PagesFailed err \<Rightarrow> ((False, Some (Wrapped ''failed to list subnets list: '' err)), [])
           | ExtractFailed err \<Rightarrow>
               ((False, Some (Wrapped ''failed to extract subnets list: '' err)), [])
           | Extracted allSubnets \<Rightarrow>
               (let clusterTag = clusterTagOf filters;
                    clusterRouter = isClusterRouter clusterTag (Router_Tags router);
                    numberToDelete = int (length allPorts)
                in case routerPortsLoop clusterRouter allSubnets RemoveInterface allPorts
                          \<lparr>st_numberDeleted = 0, st_customInterfaces = [],
                           st_removedSubnets = (\<lambda>subnetID. False), st_removeCalls = []\<rparr> of
                     Inl calls \<Rightarrow> ((False, None), calls)
                   | Inr st \<Rightarrow>
                       ((numberToDelete - int (length (st_customInterfaces st)) = st_numberDeleted st,
                         None),
                        st_removeCalls st))))"

text \<open>
  In the words of the specification: the interfaces of a foreign router that are left
  alone are the fixed IPs, over all ports of the router, whose subnet is not among the
  cluster-tagged subnets.
\<close>

definition custom_interfaces :: "bool \<Rightarrow> Subnet list \<Rightarrow> Port list \<Rightarrow> IP list" where
  "custom_interfaces clusterRouter allSubnets allPorts =
     filter (\<lambda>ip. \<not> clusterRouter \<and> IP_SubnetID ip \<notin> Subnet_ID ` set allSubnets)
       (concat (map Port_FixedIPs allPorts))"

text \<open>A router of the user with three interfaces: two fixed IPs on one subnet of the
  cluster and an interface on a subnet of the user.\<close>

definition foreign_router :: Router where
  "foreign_router = \<lparr>Router_ID = ''router-1'', Router_Tags = [''owner=user'']\<rparr>"

definition foreign_router_ports :: "Port list" where
  "foreign_router_ports =
     [\<lparr>Port_ID = ''port-a'', Port_SecurityGroups = [],
       Port_FixedIPs = [\<lparr>IP_SubnetID = ''subnet-cluster'', IP_IPAddress = ''10.0.0.1''\<rparr>]\<rparr>,
      \<lparr>Port_ID = ''port-b'', Port_SecurityGroups = [],
       Port_FixedIPs = [\<lparr>IP_SubnetID = ''subnet-user'', IP_IPAddress = ''192.168.0.1''\<rparr>]\<rparr>]"

definition two_ips_port :: "Port list" where
  "two_ips_port =
     [\<lparr>Port_ID = ''port-c'', Port_SecurityGroups = [],
       Port_FixedIPs = [\<lparr>IP_SubnetID = ''subnet-cluster'', IP_IPAddress = ''10.0.0.1''\<rparr>,
                        \<lparr>IP_SubnetID = ''subnet-cluster'', IP_IPAddress = ''10.0.0.2''\<rparr>]\<rparr>]"

definition cluster_subnets :: "Subnet list" where
  "cluster_subnets = [\<lparr>Subnet_ID = ''subnet-cluster''\<rparr>]"

text \<open>What holds of the loop variables between iterations: no subnet has had two
  calls, \<open>removedSubnets\<close> holds the subnets called for, \<open>numberDeleted\<close> counts them, and
  on a foreign router they are all cluster-tagged subnets.\<close>

definition removal_inv :: "bool \<Rightarrow> Subnet list \<Rightarrow> removal_state \<Rightarrow> bool" where
  "removal_inv clusterRouter allSubnets st =
     (distinct (st_removeCalls st)
      \<and> (\<forall>subnetID. st_removedSubnets st subnetID \<longleftrightarrow> subnetID \<in> set (st_removeCalls st))
      \<and> (\<not> clusterRouter \<longrightarrow> set (st_removeCalls st) \<subseteq> Subnet_ID ` set allSubnets)
      \<and> st_numberDeleted st = int (length (st_removeCalls st)))"

subsection \<open>Run: fan-out, fan-in and the sequential phases\<close>

text \<open>The keys of \<open>deleteFuncs\<close>: one goroutine is started for each.\<close>

definition deleteFuncNames :: "string list" where
  "deleteFuncNames =
     [''cleanVIPsPorts'', ''deleteServers'', ''deleteServerGroups'', ''deleteTrunks'',
      ''deleteLoadBalancers'', ''deletePorts'', ''deleteSecurityGroups'',
      ''clearRouterInterfaces'', ''deleteSubnets'', ''deleteNetworks'', ''deleteContainers'',
      ''deleteVolumes'', ''deleteShares'', ''deleteVolumeSnapshots'', ''deleteFloatingIPs'',
      ''deleteImages'']"

text \<open>
  What an observer of \<open>Run\<close> sees: a goroutine's name received from \<open>returnChannel\<close>, the
  process exit of \<open>logger.Fatalf\<close> in a goroutine whose backoff failed, and the start and
  the result of \<open>deleteRouterRunner\<close> and of \<open>untagRunner\<close>.
\<close>

datatype run_event =
    Signal string
  | FatalExit string
  | RoutersStarted
  | RoutersDone "error option"
  | UntagStarted
  | UntagDone "error option"

text \<open>Where the main goroutine is: in the receive loop, in \<open>deleteRouterRunner\<close>, in
  \<open>untagRunner\<close>, returned from \<open>Run\<close> with its error, or gone with the process.\<close>

datatype run_phase = FanIn | Routers | Untag | Finished "error option" | Exited

text \<open>The goroutines that have not sent their name yet, the counter \<open>i\<close> of the
  receive loop, the phase and the events so far.\<close>

record run_state =
  run_running :: "string list"
  run_received :: nat
  run_phase :: run_phase
  run_trace :: "run_event list"

text \<open>
  The scheduler's choices. A goroutine completes by sending its name, which on the
  unbuffered \<open>returnChannel\<close> happens together with a receive of the main loop; a
  goroutine whose backoff returned an error ends the process; the main goroutine
  proceeds, and if it is in one of the two runners the choice carries the runner's
  result. A choice that is not enabled leaves the state as it is.
\<close>

datatype scheduled = TaskCompletes string | TaskFails string | MainProceeds "error option"

fun step :: "run_state \<Rightarrow> scheduled \<Rightarrow> run_state" where
  "step s (TaskCompletes name) =
     (if run_phase s = FanIn \<and> name \<in> set (run_running s)
         \<and> run_received s < length deleteFuncNames
      then s\<lparr>run_running := removeAll name (run_running s),
             run_received := run_received s + 1,
             run_trace := run_trace s @ [Signal name]\<rparr>
      else s)"
| "step s (TaskFails name) =
     (if run_phase s \<noteq> Exited \<and> name \<in> set (run_running s)
      then s\<lparr>run_phase := Exited, run_trace := run_trace s @ [FatalExit name]\<rparr>
      else s)"
| "step s (MainProceeds result) =
     (case run_phase s of
        FanIn \<Rightarrow>
          if run_received s < length deleteFuncNames then s
          else s\<lparr>run_phase := Routers, run_trace := run_trace s @ [RoutersStarted]\<rparr>
      | Routers \<Rightarrow>
          (case result of
             Some err \<Rightarrow>
               s\<lparr>run_phase := Finished (Some err),
                  run_trace := run_trace s @ [RoutersDone (Some err)]\<rparr>
           | None \<Rightarrow>
               s\<lparr>run_phase := Untag,
                  run_trace := run_trace s @ [RoutersDone None, UntagStarted]\<rparr>)
      | Untag \<Rightarrow>
          s\<lparr>run_phase := Finished result, run_trace := run_trace s @ [UntagDone result]\<rparr>
      | Finished err \<Rightarrow> s
      | Exited \<Rightarrow> s)"

text \<open>\<open>Run\<close> under a schedule: it returns at once when \<open>validateCloud\<close> fails, and
  otherwise starts the goroutines and enters the receive loop with \<open>i = 0\<close>.\<close>

definition Run :: "error option \<Rightarrow> scheduled list \<Rightarrow> run_state" where
  "Run validateCloud schedule =
     (case validateCloud of
        Some err \<Rightarrow>
          \<lparr>run_running = [], run_received = 0, run_phase = Finished (Some err), run_trace = []\<rparr>
      | None \<Rightarrow>
          foldl step
            \<lparr>run_running = deleteFuncNames, run_received = 0, run_phase = FanIn, run_trace = []\<rparr>
            schedule)"

text \<open>The two orderings asked of the events of \<open>Run\<close>: every goroutine's signal is
  received before \<open>deleteRouterRunner\<close> starts, and \<open>untagRunner\<close> starts only after
  \<open>deleteRouterRunner\<close> has returned nil.\<close>

definition signals_before_routers :: "run_event list \<Rightarrow> bool" where
  "signals_before_routers t =
     (\<forall>pre post. t = pre @ RoutersStarted # post \<longrightarrow>
        (\<forall>name \<in> set deleteFuncNames. Signal name \<in> set pre))"

definition routers_before_untag :: "run_event list \<Rightarrow> bool" where
  "routers_before_untag t =
     (\<forall>pre post. t = pre @ UntagStarted # post \<longrightarrow> RoutersDone None \<in> set pre)"

text \<open>What holds of every state \<open>Run\<close> can be in.\<close>

definition run_inv :: "run_state \<Rightarrow> bool" where
  "run_inv s =
     (signals_before_routers (run_trace s)
      \<and> routers_before_untag (run_trace s)
      \<and> (\<forall>name \<in> set deleteFuncNames. name \<notin> set (run_running s) \<longrightarrow> Signal name \<in> set (run_trace s))
      \<and> (run_phase s = FanIn \<longrightarrow>
            distinct (run_running s)
            \<and> run_received s + length (run_running s) = length deleteFuncNames))"

text \<open>A schedule in which the sixteen goroutines complete in the order of the list
  and both runners succeed.\<close>

definition all_succeed :: "scheduled list" where
  "all_succeed =
     map TaskCompletes deleteFuncNames @ [MainProceeds None, MainProceeds None, MainProceeds None]"

section \<open>Properties\<close>

subsection \<open>Properties of the tag matcher\<close>

lemma withAllTags_filter:
  "withAllTags filters objs acc = acc @ filter (\<lambda>ob. allTagsFound filters (Tags ob)) objs"
  by (induction objs arbitrary: acc) simp_all

lemma withValues_filter:
  "withValues filters objs acc = acc @ filter (\<lambda>ob. valuesMatch filters (Tags ob)) objs"
  by (induction objs arbitrary: acc) simp_all

lemma allTagsFound_iff:
  "allTagsFound filters tags \<longleftrightarrow> (\<forall>(key, val) \<in> set filters. tags key \<noteq> None)"
  by (induction filters tags rule: allTagsFound.induct) auto

lemma valuesMatch_iff:
  "valuesMatch filters tags \<longleftrightarrow> (\<forall>(key, val) \<in> set filters. index_or_zero tags key = val)"
  by (induction filters tags rule: valuesMatch.induct) auto

lemma both_passes_iff:
  "allTagsFound filters (Tags ob) \<and> valuesMatch filters (Tags ob) \<longleftrightarrow> matches filters ob"
  unfolding allTagsFound_iff valuesMatch_iff matches_def index_or_zero_def
  by (auto split: option.splits) force+

lemma filterObjects_as_filter:
  "filterObjects osObjects filters = filter (matches filters) osObjects"
proof -
  have "filterObjects osObjects filters =
        filter (\<lambda>ob. allTagsFound filters (Tags ob) \<and> valuesMatch filters (Tags ob)) osObjects"
    by (simp add: filterObjects_def withAllTags_filter withValues_filter conj_commute)
  then show ?thesis
    by (simp add: both_passes_iff)
qed

text \<open>
  C1. \<open>filterObjects\<close> returns exactly the input objects whose tags contain every key
  of the filter with an equal value, in input order: an object that lacks a filter key
  or carries another value for it is dropped, and tags beyond the filter's do not matter.
\<close>

theorem filterObjects_exact_subset:
  "filterObjects osObjects filters =
     filter (\<lambda>object. \<forall>(key, val) \<in> set filters. Tags object key = Some val) osObjects"
  using filterObjects_as_filter [of osObjects filters]
  by (simp add: matches_def [abs_def])

theorem filterObjects_exact_subset_witness:
  "filterObjects
     [\<lparr>ID = ''h1'', Tags = [''a'' \<mapsto> ''1'']\<rparr>,
      \<lparr>ID = ''h2'', Tags = [''a'' \<mapsto> ''1'', ''b'' \<mapsto> ''9'']\<rparr>,
      \<lparr>ID = ''h3'', Tags = [''a'' \<mapsto> ''1'', ''b'' \<mapsto> ''2'', ''c'' \<mapsto> ''3'']\<rparr>]
     [(''a'', ''1''), (''b'', ''2'')]
   = [\<lparr>ID = ''h3'', Tags = [''a'' \<mapsto> ''1'', ''b'' \<mapsto> ''2'', ''c'' \<mapsto> ''3'']\<rparr>]"
  using filterObjects_exact_subset
    [of "[\<lparr>ID = ''h1'', Tags = [''a'' \<mapsto> ''1'']\<rparr>,
          \<lparr>ID = ''h2'', Tags = [''a'' \<mapsto> ''1'', ''b'' \<mapsto> ''9'']\<rparr>,
          \<lparr>ID = ''h3'', Tags = [''a'' \<mapsto> ''1'', ''b'' \<mapsto> ''2'', ''c'' \<mapsto> ''3'']\<rparr>]"
        "[(''a'', ''1''), (''b'', ''2'')]"]
  by simp

text \<open>
  C10. With an empty filter \<open>filterObjects\<close> returns every object of the input list,
  in input order: a task that filters client-side with an empty filter selects all it
  listed.
\<close>

theorem filterObjects_empty_filter:
  "filterObjects osObjects [] = osObjects"
  by (simp add: filterObjects_def withAllTags_filter withValues_filter)

subsection \<open>Not-found on delete\<close>

lemma length_filter_all: "length (filter P xs) = length xs \<longleftrightarrow> list_all P xs"
proof (induction xs)
  case Nil
  show ?case by simp
next
  case (Cons a xs)
  have "length (filter P xs) \<noteq> Suc (length xs)"
    using length_filter_le [of P xs] by arith
  with Cons.IH show ?case by simp
qed

lemma deleteServersLoop_count:
  "fst (deleteServersLoop delete servers (n, calls)) =
     n + length (filter (\<lambda>server. case delete (ID server) of
                                     None \<Rightarrow> True
                                   | Some err \<Rightarrow> ResponseCodeIs err StatusNotFound) servers)"
  by (induction servers arbitrary: n calls) (simp_all split: option.splits)

lemma deleteServers_not_found_is_success:
  "deleteServers filters (Listed allServers) delete =
     (list_all (\<lambda>server. case delete (ID server) of
                             None \<Rightarrow> True
                           | Some err \<Rightarrow> ResponseCodeIs err StatusNotFound)
        (filterObjects (serverObjects allServers) filters), None)"
proof -
  show ?thesis
    by (simp add: deleteServers_def Let_def deleteServersLoop_count length_filter_all)
qed

lemma deleteServerGroupsLoop_count:
  "fst (deleteServerGroupsLoop delete groups (n, calls)) =
     n + length (filter (\<lambda>serverGroup. case delete (ServerGroup_ID serverGroup) of
                                     None \<Rightarrow> True
                                   | Some err \<Rightarrow> \<not> ResponseCodeIs err StatusNotFound) groups)"
  by (induction groups arbitrary: n calls) (simp_all split: option.splits)

lemma deleteServerGroupsLoop_calls:
  "snd (deleteServerGroupsLoop delete groups (n, calls)) = calls @ map ServerGroup_ID groups"
  by (induction groups arbitrary: n calls) (simp_all split: option.splits)

lemma deleteVolumesLoop_calls:
  "snd (deleteVolumesLoop delete ids (n, calls)) = calls @ ids"
  by (induction ids arbitrary: n calls) (simp_all split: option.splits)

text \<open>
  C3. A delete call that returns not-found should count the resource as deleted, and
  any other error should only skip it for this pass. \<open>deleteServerGroups\<close> has the test
  the wrong way round: with one server group of the cluster whose delete call answers
  404 it returns \<open>(false, nil)\<close>, and with one whose delete call answers 409 it returns
  \<open>(true, nil)\<close>; \<open>deleteServers\<close> on the same answers returns \<open>(true, nil)\<close> and
  \<open>(false, nil)\<close>.
\<close>

theorem deleteServerGroups_inverted_not_found:
  "deleteServerGroups asciiToLower [(''openshiftClusterID'', ''abc'')]
     (Listed [\<lparr>ServerGroup_ID = ''g1'', ServerGroup_Name = ''abc-master''\<rparr>]) not_found
     = (False, None)
   \<and> deleteServerGroups asciiToLower [(''openshiftClusterID'', ''abc'')]
     (Listed [\<lparr>ServerGroup_ID = ''g1'', ServerGroup_Name = ''abc-master''\<rparr>]) in_use
     = (True, None)
   \<and> deleteServers [(''openshiftClusterID'', ''abc'')]
     (Listed [\<lparr>Server_ID = ''s1'', Server_Metadata = [''openshiftClusterID'' \<mapsto> ''abc'']\<rparr>])
     not_found = (True, None)
   \<and> deleteServers [(''openshiftClusterID'', ''abc'')]
     (Listed [\<lparr>Server_ID = ''s1'', Server_Metadata = [''openshiftClusterID'' \<mapsto> ''abc'']\<rparr>])
     in_use = (False, None)"
  by code_simp

subsection \<open>A filter without the cluster ID key\<close>

lemma clusterIDOf_no_key:
  "\<forall>(k, v) \<in> set filters. ToLower k \<noteq> ''openshiftclusterid'' \<Longrightarrow> clusterIDOf ToLower filters = []"
  by (induction filters) auto

lemma HasPrefix_empty: "HasPrefix s []"
  by (simp add: HasPrefix_def)

lemma volumeIDs_empty_clusterID:
  "volumeIDs [] allVolumes ids =
     ids @ concat (map (\<lambda>volume.
                     Volume_ID volume #
                     (if Volume_Metadata volume cinderCSIClusterIDKey = Some []
                      then [Volume_ID volume] else [])) allVolumes)"
  by (induction allVolumes arbitrary: ids) (simp_all add: HasPrefix_empty Let_def split: option.splits)

text \<open>
  C9. When no key of the filter lower-cases to \<open>openshiftclusterid\<close>, the cluster ID the
  name-prefix tasks extract is the empty string; \<open>deleteServerGroups\<close> then keeps every
  listed server group and issues a delete call for each, and \<open>deleteVolumes\<close> issues a
  delete call for every listed volume.
\<close>

theorem missing_cluster_id_selects_everything:
  assumes "\<forall>(k, v) \<in> set filters. ToLower k \<noteq> ''openshiftclusterid''"
  shows "clusterIDOf ToLower filters = []
       \<and> filteredGroups ToLower filters allServerGroups = allServerGroups
       \<and> deleteServerGroups_calls ToLower filters (Listed allServerGroups) deleteGroup
           = map ServerGroup_ID allServerGroups
       \<and> set (volumeIDs (clusterIDOf ToLower filters) allVolumes []) = Volume_ID ` set allVolumes
       \<and> set (deleteVolumes_calls ToLower filters (Listed allVolumes) deleteVolume)
           = Volume_ID ` set allVolumes"
proof -
  have empty: "clusterIDOf ToLower filters = []"
    using assms by (rule clusterIDOf_no_key)
  have groups: "filteredGroups ToLower filters allServerGroups = allServerGroups"
    by (simp add: filteredGroups_def empty HasPrefix_empty)
  have ids: "set (volumeIDs [] allVolumes []) = Volume_ID ` set allVolumes"
    by (auto simp: volumeIDs_empty_clusterID split: if_splits)
  show ?thesis
    by (simp add: empty groups ids deleteServerGroups_calls_def deleteVolumes_calls_def
        deleteServerGroupsLoop_calls deleteVolumesLoop_calls)
qed

theorem missing_cluster_id_selects_everything_witness:
  "clusterIDOf asciiToLower [(''otherKey'', ''abc'')] = []
   \<and> filteredGroups asciiToLower [(''otherKey'', ''abc'')]
       [\<lparr>ServerGroup_ID = ''g1'', ServerGroup_Name = ''abc-master''\<rparr>,
        \<lparr>ServerGroup_ID = ''g2'', ServerGroup_Name = ''someone-elses''\<rparr>]
     = [\<lparr>ServerGroup_ID = ''g1'', ServerGroup_Name = ''abc-master''\<rparr>,
        \<lparr>ServerGroup_ID = ''g2'', ServerGroup_Name = ''someone-elses''\<rparr>]
   \<and> set (deleteVolumes_calls asciiToLower [(''otherKey'', ''abc'')]
       (Listed [\<lparr>Volume_ID = ''v1'', Volume_Name = ''abc-pvc'', Volume_Metadata = Map.empty\<rparr>,
                \<lparr>Volume_ID = ''v2'', Volume_Name = ''database'', Volume_Metadata = Map.empty\<rparr>])
       (\<lambda>id. None))
     = {''v1'', ''v2''}"
proof -
  have h: "\<forall>(k, v) \<in> set [(''otherKey'', ''abc'')]. asciiToLower k \<noteq> ''openshiftclusterid''"
    by (simp add: asciiToLower_def)
  show ?thesis
    using missing_cluster_id_selects_everything [OF h,
        of "[\<lparr>ServerGroup_ID = ''g1'', ServerGroup_Name = ''abc-master''\<rparr>,
             \<lparr>ServerGroup_ID = ''g2'', ServerGroup_Name = ''someone-elses''\<rparr>]" _
           "[\<lparr>Volume_ID = ''v1'', Volume_Name = ''abc-pvc'', Volume_Metadata = Map.empty\<rparr>,
             \<lparr>Volume_ID = ''v2'', Volume_Name = ''database'', Volume_Metadata = Map.empty\<rparr>]"
           "\<lambda>id. None"]
    by simp
qed

subsection \<open>Primary-network untagging\<close>

lemma backoffLoop_aborts:
  assumes "\<forall>j < k. condition (attempt + j) = (False, None)"
    and "k < steps"
    and "condition (attempt + k) = (ok, Some e)"
  shows "backoffLoop steps condition attempt = (Some e, attempt + k + 1)"
  using assms
proof (induction k arbitrary: steps attempt)
  case 0
  then obtain steps' where "steps = Suc steps'"
    by (cases steps) auto
  with 0 show ?case by simp
next
  case (Suc k)
  obtain steps' where steps: "steps = Suc steps'"
    using Suc.prems(2) by (cases steps) auto
  have first: "condition attempt = (False, None)"
    using Suc.prems(1) by (metis add.right_neutral zero_less_Suc)
  have "backoffLoop steps' condition (Suc attempt) = (Some e, Suc attempt + k + 1)"
  proof (rule Suc.IH)
    show "\<forall>j<k. condition (Suc attempt + j) = (False, None)"
      using Suc.prems(1) by (metis Suc_less_eq add_Suc_shift)
    show "k < steps'"
      using Suc.prems(2) steps by simp
    show "condition (Suc attempt + k) = (ok, Some e)"
      using Suc.prems(3) by simp
  qed
  with steps first show ?case by simp
qed

text \<open>
  C4, as the claim states its last part: with exactly one tagged network, a not-found
  answer from the tag-delete call would be success. The code returns \<open>(false, nil)\<close>.
\<close>

theorem untag_not_found_counterexample:
  "untagPrimaryNetwork ''infra'' one_tagged_network tag_not_found \<noteq> (True, None)"
  by (simp add: untagPrimaryNetwork_def one_tagged_network_def tag_not_found_def)

text \<open>
  C4, amended. With no tagged network the task returns \<open>(true, nil)\<close>. With more than
  one it returns a non-nil error, and the first attempt of \<open>untagRunner\<close> at which that
  happens is its last: the runner returns that error, wrapped and different from the
  timeout. With exactly one tagged network the task issues the tag-delete call and
  returns \<open>(true, nil)\<close> if the call succeeds and \<open>(false, nil)\<close> on any error of the
  call, not-found included, so that the task is retried.
\<close>

theorem untagPrimaryNetwork_cases:
  "(listNetworks (infraID @ ''-primaryClusterNetwork'') = Listed [] \<longrightarrow>
      untagPrimaryNetwork infraID listNetworks tagDelete = (True, None))
   \<and> (listNetworks (infraID @ ''-primaryClusterNetwork'') = Listed allNetworks \<and> length allNetworks > 1 \<longrightarrow>
      untagPrimaryNetwork infraID listNetworks tagDelete =
        (False, Some (Errorf (''more than one network with tag '' @ infraID @ ''-primaryClusterNetwork''))))
   \<and> ((\<forall>j < k. untagPrimaryNetwork infraID (listings (j::nat)) (tagDeletes j) = (False, None))
        \<and> k < 25 \<and> listings k (infraID @ ''-primaryClusterNetwork'') = Listed allNetworks
        \<and> length allNetworks > 1 \<longrightarrow>
      untagRunner infraID listings tagDeletes =
        (Some (Wrapped ''unrecoverable error: ''
                 (Errorf (''more than one network with tag '' @ infraID @ ''-primaryClusterNetwork''))),
         k + 1))
   \<and> (listNetworks (infraID @ ''-primaryClusterNetwork'') = Listed [network] \<longrightarrow>
      untagPrimaryNetwork infraID listNetworks tagDelete =
        (tagDelete (Network_ID network) (infraID @ ''-primaryClusterNetwork'') = None, None))"
proof (intro conjI impI)
  assume "listNetworks (infraID @ ''-primaryClusterNetwork'') = Listed []"
  then show "untagPrimaryNetwork infraID listNetworks tagDelete = (True, None)"
    by (simp add: untagPrimaryNetwork_def)
next
  assume "listNetworks (infraID @ ''-primaryClusterNetwork'') = Listed allNetworks \<and> length allNetworks > 1"
  then show "untagPrimaryNetwork infraID listNetworks tagDelete =
      (False, Some (Errorf (''more than one network with tag '' @ infraID @ ''-primaryClusterNetwork'')))"
    by (simp add: untagPrimaryNetwork_def)
next
  let ?e = "Errorf (''more than one network with tag '' @ infraID @ ''-primaryClusterNetwork'')"
  let ?condition = "\<lambda>attempt. untagPrimaryNetwork infraID (listings attempt) (tagDeletes attempt)"
  assume a: "(\<forall>j < k. untagPrimaryNetwork infraID (listings j) (tagDeletes j) = (False, None))
        \<and> k < 25 \<and> listings k (infraID @ ''-primaryClusterNetwork'') = Listed allNetworks
        \<and> length allNetworks > 1"
  then have last: "?condition (0 + k) = (False, Some ?e)"
    by (simp add: untagPrimaryNetwork_def)
  have before: "\<forall>j < k. ?condition (0 + j) = (False, None)"
    using a by simp
  have "backoffLoop 25 ?condition 0 = (Some ?e, 0 + k + 1)"
    using before _ last by (rule backoffLoop_aborts) (use a in simp)
  then show "untagRunner infraID listings tagDeletes = (Some (Wrapped ''unrecoverable error: '' ?e), k + 1)"
    by (simp add: untagRunner_def ExponentialBackoff_def)
next
  assume "listNetworks (infraID @ ''-primaryClusterNetwork'') = Listed [network]"
  then show "untagPrimaryNetwork infraID listNetworks tagDelete =
      (tagDelete (Network_ID network) (infraID @ ''-primaryClusterNetwork'') = None, None)"
    by (simp add: untagPrimaryNetwork_def split: option.splits)
qed

theorem untagPrimaryNetwork_cases_witness:
  "untagPrimaryNetwork ''infra'' no_tagged_network tag_removed = (True, None)
   \<and> untagPrimaryNetwork ''infra'' two_tagged_networks tag_removed =
       (False, Some (Errorf ''more than one network with tag infra-primaryClusterNetwork''))
   \<and> untagRunner ''infra'' two_networks_on_third_attempt tag_removed_every_attempt =
       (Some (Wrapped ''unrecoverable error: ''
                (Errorf ''more than one network with tag infra-primaryClusterNetwork'')), 3)
   \<and> untagPrimaryNetwork ''infra'' one_tagged_network tag_removed = (True, None)
   \<and> untagPrimaryNetwork ''infra'' one_tagged_network tag_not_found = (False, None)"
proof -
  have before: "\<forall>j < 2. untagPrimaryNetwork ''infra'' (two_networks_on_third_attempt j)
      (tag_removed_every_attempt j) = (False, None)"
    by (simp add: untagPrimaryNetwork_def two_networks_on_third_attempt_def)
  have third: "two_networks_on_third_attempt 2 (''infra'' @ ''-primaryClusterNetwork'') =
      Listed [\<lparr>Network_ID = ''net-1''\<rparr>, \<lparr>Network_ID = ''net-2''\<rparr>]"
    by (simp add: two_networks_on_third_attempt_def two_tagged_networks_def)
  have two: "two_tagged_networks (''infra'' @ ''-primaryClusterNetwork'') =
      Listed [\<lparr>Network_ID = ''net-1''\<rparr>, \<lparr>Network_ID = ''net-2''\<rparr>]"
    by (simp add: two_tagged_networks_def)
  have none: "no_tagged_network (''infra'' @ ''-primaryClusterNetwork'') = Listed []"
    by (simp add: no_tagged_network_def)
  have one: "one_tagged_network (''infra'' @ ''-primaryClusterNetwork'') = Listed [\<lparr>Network_ID = ''net-1''\<rparr>]"
    by (simp add: one_tagged_network_def)
  note c = untagPrimaryNetwork_cases
  show ?thesis
    using c [where listNetworks = no_tagged_network and infraID = "''infra''" and tagDelete = tag_removed
               and allNetworks = "[]" and k = 0]
      c [where listNetworks = two_tagged_networks and infraID = "''infra''" and tagDelete = tag_removed
           and allNetworks = "[\<lparr>Network_ID = ''net-1''\<rparr>, \<lparr>Network_ID = ''net-2''\<rparr>]"
           and k = 2 and listings = two_networks_on_third_attempt and tagDeletes = tag_removed_every_attempt]
      c [where listNetworks = one_tagged_network and infraID = "''infra''" and tagDelete = tag_removed
           and allNetworks = "[]" and k = 0 and network = "\<lparr>Network_ID = ''net-1''\<rparr>"]
      c [where listNetworks = one_tagged_network and infraID = "''infra''" and tagDelete = tag_not_found
           and allNetworks = "[]" and k = 0 and network = "\<lparr>Network_ID = ''net-1''\<rparr>"]
      before third two none one
    by (simp add: tag_removed_def tag_not_found_def)
qed

subsection \<open>Network deletion and leftover load balancers\<close>

lemma leftoverLoop_calls:
  "snd (leftoverLoop P lbs deleted) = concat (map (leftover_calls P) lbs)"
  by (induction lbs arbitrary: deleted)
     (simp_all add: leftover_calls_def followed_by_def split: prod.splits option.splits)

lemma leftoverLoop_count:
  "fst (leftoverLoop P lbs deleted) = deleted + length (filter (leftover_deleted P) lbs)"
  by (induction lbs arbitrary: deleted)
     (simp_all add: leftover_deleted_def followed_by_def split: prod.splits option.splits)

lemma deleteLeftoverLoadBalancers_listed:
  assumes "listLoadBalancers P networkID = Listed lbs"
  shows "snd (deleteLeftoverLoadBalancers P networkID) = concat (map (leftover_calls P) lbs)"
    and "fst (deleteLeftoverLoadBalancers P networkID) = None \<longleftrightarrow> list_all (leftover_deleted P) lbs"
proof -
  obtain deleted calls where loop: "leftoverLoop P lbs 0 = (deleted, calls)"
    by (cases "leftoverLoop P lbs 0")
  have calls: "calls = concat (map (leftover_calls P) lbs)"
    using leftoverLoop_calls [of P lbs 0] loop by simp
  have deleted: "deleted = length (filter (leftover_deleted P) lbs)"
    using leftoverLoop_count [of P lbs 0] loop by simp
  show "snd (deleteLeftoverLoadBalancers P networkID) = concat (map (leftover_calls P) lbs)"
    by (simp add: deleteLeftoverLoadBalancers_def assms loop calls)
  show "fst (deleteLeftoverLoadBalancers P networkID) = None \<longleftrightarrow> list_all (leftover_deleted P) lbs"
    by (simp add: deleteLeftoverLoadBalancers_def assms loop deleted length_filter_all)
qed

lemma deleteNetworksLoop_in_use:
  assumes "networkDelete P (Network_ID network) = Some err"
    and "\<not> ResponseCodeIs err StatusNotFound"
  shows "snd (deleteNetworksLoop P [network] n) =
     NetworkDelete (Network_ID network) # snd (deleteLeftoverLoadBalancers P (Network_ID network))
       @ (if fst (deleteLeftoverLoadBalancers P (Network_ID network)) = None
          then [DeletePortsByNetwork (Network_ID network)] else [])"
  using assms by (simp add: followed_by_def split: prod.splits option.splits)

text \<open>
  C5, as the claim states its last part: the load-balancer step would report success
  whenever every load balancer with the description prefix was deleted. On a network
  with a deleted leftover load balancer and a load balancer of the user the step
  returns an error.
\<close>

theorem leftover_step_counterexample:
  "every_prefixed_deleted mixed_provider mixed_lbs
   \<and> listLoadBalancers mixed_provider ''net-1'' = Listed mixed_lbs
   \<and> fst (deleteLeftoverLoadBalancers mixed_provider ''net-1'') \<noteq> None"
  by code_simp

text \<open>
  C5, amended. When the delete call for a network fails with an error other than
  not-found, \<open>deleteNetworks\<close> runs the load-balancer step next and calls
  \<open>deletePortsByNetwork\<close> for the network after it only if the step returned nil. The
  step makes no call for a listed load balancer without the description prefix; for one
  with the prefix it deletes the floating IPs of the VIP port and then, if that went
  through, the load balancer. It returns nil exactly when every load balancer listed on
  the network, whatever its description, has the prefix and was deleted.
\<close>

theorem leftover_load_balancers_before_ports:
  "(networkDelete P (Network_ID network) = Some err \<and> \<not> ResponseCodeIs err StatusNotFound \<longrightarrow>
      snd (deleteNetworksLoop P [network] n) =
        NetworkDelete (Network_ID network) # snd (deleteLeftoverLoadBalancers P (Network_ID network))
          @ (if fst (deleteLeftoverLoadBalancers P (Network_ID network)) = None
             then [DeletePortsByNetwork (Network_ID network)] else []))
   \<and> (listLoadBalancers P networkID = Listed lbs \<longrightarrow>
        snd (deleteLeftoverLoadBalancers P networkID) = concat (map (leftover_calls P) lbs)
      \<and> (fst (deleteLeftoverLoadBalancers P networkID) = None \<longleftrightarrow> list_all (leftover_deleted P) lbs))"
  using deleteNetworksLoop_in_use [of P network err n]
    deleteLeftoverLoadBalancers_listed [of P networkID lbs]
  by blast

theorem leftover_load_balancers_before_ports_witness:
  "snd (deleteNetworksLoop leftover_provider [\<lparr>Network_ID = ''net-1''\<rparr>] 0) =
     [NetworkDelete ''net-1'', FloatingIPDelete ''fip-of-port-1'', LoadBalancerDelete ''lb-1'',
      DeletePortsByNetwork ''net-1'']
   \<and> fst (deleteLeftoverLoadBalancers leftover_provider ''net-1'') = None
   \<and> list_all (leftover_deleted leftover_provider) [hd mixed_lbs]
   \<and> snd (deleteNetworksLoop mixed_provider [\<lparr>Network_ID = ''net-1''\<rparr>] 0) =
     [NetworkDelete ''net-1'', FloatingIPDelete ''fip-of-port-1'', LoadBalancerDelete ''lb-1'']
   \<and> fst (deleteLeftoverLoadBalancers mixed_provider ''net-1'') \<noteq> None"
proof -
  have refused: "networkDelete leftover_provider (Network_ID \<lparr>Network_ID = ''net-1''\<rparr>) = Some (ResponseCode 409)
      \<and> \<not> ResponseCodeIs (ResponseCode 409) StatusNotFound"
    by (simp add: leftover_provider_def in_use_def StatusNotFound_def)
  have refused': "networkDelete mixed_provider (Network_ID \<lparr>Network_ID = ''net-1''\<rparr>) = Some (ResponseCode 409)
      \<and> \<not> ResponseCodeIs (ResponseCode 409) StatusNotFound"
    by (simp add: mixed_provider_def in_use_def StatusNotFound_def)
  have listed: "listLoadBalancers leftover_provider ''net-1'' = Listed [hd mixed_lbs]"
    by (simp add: leftover_provider_def list_leftover_lb_def)
  have listed': "listLoadBalancers mixed_provider ''net-1'' = Listed mixed_lbs"
    by (simp add: mixed_provider_def list_mixed_lbs_def)
  have all: "list_all (leftover_deleted leftover_provider) [hd mixed_lbs]"
    by code_simp
  have not_all: "\<not> list_all (leftover_deleted mixed_provider) mixed_lbs"
    by code_simp
  have calls: "concat (map (leftover_calls leftover_provider) [hd mixed_lbs]) =
      [FloatingIPDelete ''fip-of-port-1'', LoadBalancerDelete ''lb-1'']"
    by code_simp
  have calls': "concat (map (leftover_calls mixed_provider) mixed_lbs) =
      [FloatingIPDelete ''fip-of-port-1'', LoadBalancerDelete ''lb-1'']"
    by code_simp
  note t = leftover_load_balancers_before_ports
  show ?thesis
    using t [where P = leftover_provider and network = "\<lparr>Network_ID = ''net-1''\<rparr>"
               and err = "ResponseCode 409" and n = 0 and networkID = "''net-1''"
               and lbs = "[hd mixed_lbs]"]
      t [where P = mixed_provider and network = "\<lparr>Network_ID = ''net-1''\<rparr>"
               and err = "ResponseCode 409" and n = 0 and networkID = "''net-1''"
               and lbs = mixed_lbs]
      refused refused' listed listed' all not_all calls calls'
    by simp
qed

subsection \<open>Security groups of a deleted port\<close>

lemma securityGroupsLoop_step:
  "\<exists>m'. m' \<subseteq>\<^sub>m sgByID
     \<and> (snd (securityGroupsLoop P (g # rest) sgByID) = snd (securityGroupsLoop P rest m')
        \<or> snd (securityGroupsLoop P (g # rest) sgByID) = SecGroupDelete g # snd (securityGroupsLoop P rest m')
          \<and> (\<exists>secGroup. sgByID g = Some secGroup
                \<and> MatchString cloudProviderSGNamePattern (SecGroup_Name secGroup)))"
proof -
  have drop: "sgByID(g := None) \<subseteq>\<^sub>m sgByID"
    by (simp add: map_le_def)
  have keep: "sgByID \<subseteq>\<^sub>m sgByID"
    by (rule map_le_refl)
  show ?thesis
  proof (cases "sgByID g")
    case None
    then show ?thesis using keep by (intro exI [of _ sgByID]) simp
  next
    case (Some secGroup)
    show ?thesis
    proof (cases "MatchString cloudProviderSGNamePattern (SecGroup_Name secGroup)")
      case False
      with Some show ?thesis using keep by (intro exI [of _ sgByID]) simp
    next
      case True
      show ?thesis
      proof (cases "case secGroupDelete P g of None \<Rightarrow> True | Some err \<Rightarrow> ResponseCodeIs err StatusNotFound")
        case gone: True
        have "snd (securityGroupsLoop P (g # rest) sgByID)
            = SecGroupDelete g # snd (securityGroupsLoop P rest (sgByID(g := None)))"
          using Some True gone by (simp add: followed_by_def split: option.splits)
        then show ?thesis
          using drop Some True by (intro exI [of _ "sgByID(g := None)"]) simp
      next
        case kept: False
        have "snd (securityGroupsLoop P (g # rest) sgByID)
            = SecGroupDelete g # snd (securityGroupsLoop P rest sgByID)"
          using Some True kept by (simp add: followed_by_def split: option.splits)
        then show ?thesis
          using keep Some True by (intro exI [of _ sgByID]) simp
      qed
    qed
  qed
qed

lemma securityGroupsLoop_deletes_managed:
  assumes "SecGroupDelete groupID \<in> set (snd (securityGroupsLoop P groupIDs sgByID))"
    and "sgByID \<subseteq>\<^sub>m sgByID0"
  shows "groupID \<in> set groupIDs
       \<and> (\<exists>secGroup. sgByID0 groupID = Some secGroup
             \<and> MatchString cloudProviderSGNamePattern (SecGroup_Name secGroup))"
  using assms
proof (induction groupIDs arbitrary: sgByID)
  case Nil
  then show ?case by simp
next
  case (Cons g rest)
  obtain m' where m': "m' \<subseteq>\<^sub>m sgByID"
    and step: "snd (securityGroupsLoop P (g # rest) sgByID) = snd (securityGroupsLoop P rest m')
        \<or> snd (securityGroupsLoop P (g # rest) sgByID) = SecGroupDelete g # snd (securityGroupsLoop P rest m')
          \<and> (\<exists>secGroup. sgByID g = Some secGroup
                \<and> MatchString cloudProviderSGNamePattern (SecGroup_Name secGroup))"
    using securityGroupsLoop_step [of sgByID P g rest] by blast
  have m'0: "m' \<subseteq>\<^sub>m sgByID0"
    using m' Cons.prems(2) by (rule map_le_trans)
  have lookup: "sgByID g = Some secGroup \<Longrightarrow> sgByID0 g = Some secGroup" for secGroup
    using Cons.prems(2) by (metis domI map_le_def)
  from step show ?case
  proof
    assume "snd (securityGroupsLoop P (g # rest) sgByID) = snd (securityGroupsLoop P rest m')"
    then have "SecGroupDelete groupID \<in> set (snd (securityGroupsLoop P rest m'))"
      using Cons.prems(1) by simp
    then show ?thesis
      using Cons.IH [of m'] m'0 by simp
  next
    assume a: "snd (securityGroupsLoop P (g # rest) sgByID) = SecGroupDelete g # snd (securityGroupsLoop P rest m')
          \<and> (\<exists>secGroup. sgByID g = Some secGroup
                \<and> MatchString cloudProviderSGNamePattern (SecGroup_Name secGroup))"
    then have "groupID = g \<or> SecGroupDelete groupID \<in> set (snd (securityGroupsLoop P rest m'))"
      using Cons.prems(1) by auto
    then show ?thesis
    proof
      assume "groupID = g"
      then show ?thesis using a lookup by auto
    next
      assume "SecGroupDelete groupID \<in> set (snd (securityGroupsLoop P rest m'))"
      then show ?thesis
        using Cons.IH [of m'] m'0 by simp
    qed
  qed
qed

lemma securityGroupsLoop_shrinks:
  "fst (securityGroupsLoop P groupIDs sgByID) \<subseteq>\<^sub>m sgByID"
proof (induction groupIDs arbitrary: sgByID)
  case Nil
  show ?case by simp
next
  case (Cons groupID rest)
  have drop: "sgByID(groupID := None) \<subseteq>\<^sub>m sgByID"
    by (simp add: map_le_def)
  have smaller: "fst (securityGroupsLoop P rest (sgByID(groupID := None))) \<subseteq>\<^sub>m sgByID"
    using Cons.IH [of "sgByID(groupID := None)"] drop by (rule map_le_trans)
  show ?case
    using Cons.IH [of sgByID] smaller
    by (simp add: followed_by_def split: option.splits)
qed

lemma securityGroupsLoop_only_deletes:
  "c \<in> set (snd (securityGroupsLoop P ids m)) \<Longrightarrow> \<exists>g. c = SecGroupDelete g"
  by (induction ids arbitrary: m) (auto simp: followed_by_def split: option.splits if_splits)

text \<open>One port of the worker: what its processing adds to the calls.\<close>

lemma deletePortsWorker_step:
  "\<exists>m' n' fipCalls. m' \<subseteq>\<^sub>m sgByID
     \<and> (\<forall>c \<in> set fipCalls. \<exists>f. c = FloatingIPUpdate f)
     \<and> (snd (deletePortsWorker P fipByPort (port # rest) sgByID n)
          = fipCalls @ snd (deletePortsWorker P fipByPort rest m' n')
        \<or> (\<exists>trunk. set trunk \<subseteq> {DeleteAssociatedTrunk (Port_ID port)}
            \<and> snd (deletePortsWorker P fipByPort (port # rest) sgByID n)
              = fipCalls @ [PortUpdateSecurityGroups (Port_ID port) []]
                @ snd (securityGroupsLoop P (Port_SecurityGroups port) sgByID)
                @ [PortDelete (Port_ID port)] @ trunk
                @ snd (deletePortsWorker P fipByPort rest m' n')))"
proof -
  obtain skip fipCalls where fip: "dissociateFloatingIP P fipByPort port = (skip, fipCalls)"
    by (cases "dissociateFloatingIP P fipByPort port")
  have fipCalls: "\<forall>c \<in> set fipCalls. \<exists>f. c = FloatingIPUpdate f"
    using fip by (auto simp: dissociateFloatingIP_def split: option.splits)
  obtain m' sgCalls where sg: "securityGroupsLoop P (Port_SecurityGroups port) sgByID = (m', sgCalls)"
    by (cases "securityGroupsLoop P (Port_SecurityGroups port) sgByID")
  have m': "m' \<subseteq>\<^sub>m sgByID"
    using securityGroupsLoop_shrinks [of P "Port_SecurityGroups port" sgByID] sg by simp
  show ?thesis
  proof (cases skip)
    case True
    then have "snd (deletePortsWorker P fipByPort (port # rest) sgByID n)
          = fipCalls @ snd (deletePortsWorker P fipByPort rest sgByID n)"
      using fip by (simp add: followed_by_def)
    then show ?thesis
      using fipCalls map_le_refl [of sgByID] by blast
  next
    case False
    show ?thesis
    proof (cases "portDelete P (Port_ID port)")
      case None
      then have "snd (deletePortsWorker P fipByPort (port # rest) sgByID n)
              = fipCalls @ [PortUpdateSecurityGroups (Port_ID port) []]
                @ snd (securityGroupsLoop P (Port_SecurityGroups port) sgByID)
                @ [PortDelete (Port_ID port)] @ []
                @ snd (deletePortsWorker P fipByPort rest m' (n + 1))"
        using fip False sg by (simp add: followed_by_def)
      then show ?thesis
        using fipCalls m' by (metis empty_set empty_subsetI)
    next
      case (Some err)
      then have "snd (deletePortsWorker P fipByPort (port # rest) sgByID n)
              = fipCalls @ [PortUpdateSecurityGroups (Port_ID port) []]
                @ snd (securityGroupsLoop P (Port_SecurityGroups port) sgByID)
                @ [PortDelete (Port_ID port)] @ [DeleteAssociatedTrunk (Port_ID port)]
                @ snd (deletePortsWorker P fipByPort rest m' n)"
        using fip False sg by (simp add: followed_by_def)
      then show ?thesis
        using fipCalls m' by (metis list.set(1) list.simps(15) subset_refl)
    qed
  qed
qed

lemma deletePortsWorker_deletes_managed:
  assumes "SecGroupDelete groupID \<in> set (snd (deletePortsWorker P fipByPort ports sgByID n))"
    and "sgByID \<subseteq>\<^sub>m sgByID0"
  shows "(\<exists>port \<in> set ports. groupID \<in> set (Port_SecurityGroups port))
       \<and> (\<exists>secGroup. sgByID0 groupID = Some secGroup
             \<and> MatchString cloudProviderSGNamePattern (SecGroup_Name secGroup))"
  using assms
proof (induction ports arbitrary: sgByID n)
  case Nil
  then show ?case by simp
next
  case (Cons port rest)
  obtain m' n' fipCalls where m': "m' \<subseteq>\<^sub>m sgByID"
    and fipCalls: "\<forall>c \<in> set fipCalls. \<exists>f. c = FloatingIPUpdate f"
    and step: "snd (deletePortsWorker P fipByPort (port # rest) sgByID n)
          = fipCalls @ snd (deletePortsWorker P fipByPort rest m' n')
        \<or> (\<exists>trunk. set trunk \<subseteq> {DeleteAssociatedTrunk (Port_ID port)}
            \<and> snd (deletePortsWorker P fipByPort (port # rest) sgByID n)
              = fipCalls @ [PortUpdateSecurityGroups (Port_ID port) []]
                @ snd (securityGroupsLoop P (Port_SecurityGroups port) sgByID)
                @ [PortDelete (Port_ID port)] @ trunk
                @ snd (deletePortsWorker P fipByPort rest m' n'))"
    using deletePortsWorker_step [of sgByID P fipByPort port rest n] by blast
  have m'0: "m' \<subseteq>\<^sub>m sgByID0"
    using m' Cons.prems(2) by (rule map_le_trans)
  have "SecGroupDelete groupID \<in> set (snd (securityGroupsLoop P (Port_SecurityGroups port) sgByID))
      \<or> SecGroupDelete groupID \<in> set (snd (deletePortsWorker P fipByPort rest m' n'))"
    using step Cons.prems(1) fipCalls by auto
  then show ?case
  proof
    assume "SecGroupDelete groupID \<in> set (snd (securityGroupsLoop P (Port_SecurityGroups port) sgByID))"
    then show ?thesis
      using securityGroupsLoop_deletes_managed [OF _ Cons.prems(2)] by simp
  next
    assume "SecGroupDelete groupID \<in> set (snd (deletePortsWorker P fipByPort rest m' n'))"
    then show ?thesis
      using Cons.IH [OF _ m'0] by simp
  qed
qed

lemma deletePortsWorker_detaches:
  "PortUpdateSecurityGroups portID sgs \<in> set (snd (deletePortsWorker P fipByPort ports sgByID n))
     \<Longrightarrow> sgs = [] \<and> portID \<in> Port_ID ` set ports"
proof (induction ports arbitrary: sgByID n)
  case Nil
  then show ?case by simp
next
  case (Cons port rest)
  obtain m' n' fipCalls where
    fipCalls: "\<forall>c \<in> set fipCalls. \<exists>f. c = FloatingIPUpdate f"
    and step: "snd (deletePortsWorker P fipByPort (port # rest) sgByID n)
          = fipCalls @ snd (deletePortsWorker P fipByPort rest m' n')
        \<or> (\<exists>trunk. set trunk \<subseteq> {DeleteAssociatedTrunk (Port_ID port)}
            \<and> snd (deletePortsWorker P fipByPort (port # rest) sgByID n)
              = fipCalls @ [PortUpdateSecurityGroups (Port_ID port) []]
                @ snd (securityGroupsLoop P (Port_SecurityGroups port) sgByID)
                @ [PortDelete (Port_ID port)] @ trunk
                @ snd (deletePortsWorker P fipByPort rest m' n'))"
    using deletePortsWorker_step [of sgByID P fipByPort port rest n] by blast
  have "(sgs = [] \<and> portID = Port_ID port)
      \<or> PortUpdateSecurityGroups portID sgs \<in> set (snd (deletePortsWorker P fipByPort rest m' n'))"
    using step Cons.prems fipCalls
      securityGroupsLoop_only_deletes [of "PortUpdateSecurityGroups portID sgs" P "Port_SecurityGroups port" sgByID]
    by auto
  then show ?case
    using Cons.IH [of m' n'] by auto
qed

lemma deletePortsWorker_detaches_first:
  "PortDelete portID \<in> set (snd (deletePortsWorker P fipByPort ports sgByID n))
     \<Longrightarrow> PortUpdateSecurityGroups portID [] \<in> set (snd (deletePortsWorker P fipByPort ports sgByID n))"
proof (induction ports arbitrary: sgByID n)
  case Nil
  then show ?case by simp
next
  case (Cons port rest)
  obtain m' n' fipCalls where
    fipCalls: "\<forall>c \<in> set fipCalls. \<exists>f. c = FloatingIPUpdate f"
    and step: "snd (deletePortsWorker P fipByPort (port # rest) sgByID n)
          = fipCalls @ snd (deletePortsWorker P fipByPort rest m' n')
        \<or> (\<exists>trunk. set trunk \<subseteq> {DeleteAssociatedTrunk (Port_ID port)}
            \<and> snd (deletePortsWorker P fipByPort (port # rest) sgByID n)
              = fipCalls @ [PortUpdateSecurityGroups (Port_ID port) []]
                @ snd (securityGroupsLoop P (Port_SecurityGroups port) sgByID)
                @ [PortDelete (Port_ID port)] @ trunk
                @ snd (deletePortsWorker P fipByPort rest m' n'))"
    using deletePortsWorker_step [of sgByID P fipByPort port rest n] by blast
  from step show ?case
  proof
    assume a: "snd (deletePortsWorker P fipByPort (port # rest) sgByID n)
          = fipCalls @ snd (deletePortsWorker P fipByPort rest m' n')"
    then have "PortDelete portID \<in> set (snd (deletePortsWorker P fipByPort rest m' n'))"
      using Cons.prems fipCalls by auto
    then show ?thesis
      using Cons.IH [of m' n'] a by simp
  next
    assume "\<exists>trunk. set trunk \<subseteq> {DeleteAssociatedTrunk (Port_ID port)}
            \<and> snd (deletePortsWorker P fipByPort (port # rest) sgByID n)
              = fipCalls @ [PortUpdateSecurityGroups (Port_ID port) []]
                @ snd (securityGroupsLoop P (Port_SecurityGroups port) sgByID)
                @ [PortDelete (Port_ID port)] @ trunk
                @ snd (deletePortsWorker P fipByPort rest m' n')"
    then obtain trunk where trunk: "set trunk \<subseteq> {DeleteAssociatedTrunk (Port_ID port)}"
      and a: "snd (deletePortsWorker P fipByPort (port # rest) sgByID n)
              = fipCalls @ [PortUpdateSecurityGroups (Port_ID port) []]
                @ snd (securityGroupsLoop P (Port_SecurityGroups port) sgByID)
                @ [PortDelete (Port_ID port)] @ trunk
                @ snd (deletePortsWorker P fipByPort rest m' n')"
      by blast
    have "portID = Port_ID port
        \<or> PortDelete portID \<in> set (snd (deletePortsWorker P fipByPort rest m' n'))"
      using a Cons.prems fipCalls trunk
        securityGroupsLoop_only_deletes [of "PortDelete portID" P "Port_SecurityGroups port" sgByID]
      by auto
    then show ?thesis
      using Cons.IH [of m' n'] a by auto
  qed
qed

text \<open>
  C6. Whatever ports a worker receives: a security-group delete call is issued only for
  a group that is attached to one of the ports, is in the prefetched \<open>sgByID\<close> and has a
  name matching the managed load-balancer pattern; every port update carries the empty
  security-group list, and a port that gets a delete call had its groups detached by
  such an update. So an attached group whose name does not match is detached and never
  deleted.
\<close>

theorem security_groups_deleted_only_if_managed:
  "(SecGroupDelete groupID \<in> set (snd (deletePortsWorker P fipByPort ports sgByID n)) \<longrightarrow>
      (\<exists>port \<in> set ports. groupID \<in> set (Port_SecurityGroups port))
      \<and> (\<exists>secGroup. sgByID groupID = Some secGroup
            \<and> MatchString cloudProviderSGNamePattern (SecGroup_Name secGroup)))
   \<and> (PortUpdateSecurityGroups portID sgs \<in> set (snd (deletePortsWorker P fipByPort ports sgByID n)) \<longrightarrow>
      sgs = [] \<and> portID \<in> Port_ID ` set ports)
   \<and> (PortDelete portID \<in> set (snd (deletePortsWorker P fipByPort ports sgByID n)) \<longrightarrow>
      PortUpdateSecurityGroups portID [] \<in> set (snd (deletePortsWorker P fipByPort ports sgByID n)))"
  using deletePortsWorker_deletes_managed [of groupID P fipByPort ports sgByID n sgByID]
    deletePortsWorker_detaches [of portID sgs P fipByPort ports sgByID n]
    deletePortsWorker_detaches_first [of portID P fipByPort ports sgByID n]
  by (simp add: map_le_refl)

theorem security_groups_deleted_only_if_managed_witness:
  "snd (deletePortsWorker example_port_provider Map.empty [example_port] example_sgByID 0) =
     [PortUpdateSecurityGroups ''port-1'' [], SecGroupDelete ''sg-lb'', PortDelete ''port-1'']
   \<and> (\<exists>port \<in> set [example_port]. ''sg-lb'' \<in> set (Port_SecurityGroups port))
   \<and> (\<exists>secGroup. example_sgByID ''sg-lb'' = Some secGroup
         \<and> MatchString cloudProviderSGNamePattern (SecGroup_Name secGroup))
   \<and> ''sg-user'' \<in> set (Port_SecurityGroups example_port)
   \<and> SecGroupDelete ''sg-user'' \<notin>
       set (snd (deletePortsWorker example_port_provider Map.empty [example_port] example_sgByID 0))"
proof -
  have calls: "snd (deletePortsWorker example_port_provider Map.empty [example_port] example_sgByID 0) =
     [PortUpdateSecurityGroups ''port-1'' [], SecGroupDelete ''sg-lb'', PortDelete ''port-1'']"
    by code_simp
  have issued: "SecGroupDelete ''sg-lb'' \<in>
      set (snd (deletePortsWorker example_port_provider Map.empty [example_port] example_sgByID 0))"
    unfolding calls by simp
  have not_issued: "SecGroupDelete ''sg-user'' \<notin>
      set (snd (deletePortsWorker example_port_provider Map.empty [example_port] example_sgByID 0))"
    unfolding calls by simp
  have attached: "''sg-user'' \<in> set (Port_SecurityGroups example_port)"
    unfolding example_port_def by simp
  have managed: "(\<exists>port \<in> set [example_port]. ''sg-lb'' \<in> set (Port_SecurityGroups port))
      \<and> (\<exists>secGroup. example_sgByID ''sg-lb'' = Some secGroup
            \<and> MatchString cloudProviderSGNamePattern (SecGroup_Name secGroup))"
    using security_groups_deleted_only_if_managed
      [where P = example_port_provider and fipByPort = Map.empty and ports = "[example_port]"
         and sgByID = example_sgByID and n = 0 and groupID = "''sg-lb''" and portID = "''port-1''"
         and sgs = "[]"]
      issued
    by blast
  from calls managed attached not_issued show ?thesis
    by blast
qed

subsection \<open>Bulk deletion of objects\<close>

lemma bulkDeleteLoop_no_empty_batch:
  "b \<in> set (fst (snd (bulkDeleteLoop fuel BulkDelete objectsOnPage batches errs)))
     \<Longrightarrow> b \<in> set batches \<or> b \<noteq> []"
proof (induction fuel arbitrary: objectsOnPage batches errs)
  case 0
  then show ?case
    by (simp add: bulkDeleteLoop.simps [of 0] split: if_splits)
next
  case (Suc fuel)
  show ?case
  proof (cases "objectsOnPage = []")
    case True
    with Suc.prems show ?thesis
      by (simp add: bulkDeleteLoop.simps [of "Suc fuel"])
  next
    case False
    have later: "b \<in> set (fst (snd (bulkDeleteLoop fuel BulkDelete objs (batches @ [objectsOnPage]) es)))
        \<Longrightarrow> b \<in> set batches \<or> b \<noteq> []" for objs es
      using Suc.IH [of objs "batches @ [objectsOnPage]" es] False by auto
    show ?thesis
      using Suc.prems False later
      by (auto simp: bulkDeleteLoop.simps [of "Suc fuel"] Let_def
          split: sum.splits option.splits if_splits)
  qed
qed

lemma bulkDeleteLoop_always_error:
  "fst (bulkDeleteLoop fuel always_error (object # objects) batches errs) = OutOfFuel"
proof (induction fuel arbitrary: batches errs)
  case 0
  show ?case
    by (simp add: bulkDeleteLoop.simps [of 0])
next
  case (Suc fuel)
  have answer: "always_error (length batches) (object # objects) =
      Inr \<lparr>NumberDeleted = 0, NumberNotFound = 0, Errors = [ [object, ''409 Conflict''] ]\<rparr>"
    by (simp add: always_error_def)
  show ?case
    by (simp add: bulkDeleteLoop.simps [of "Suc fuel"] answer Suc.IH)
qed

text \<open>
  C7. The loop should end when the batch is empty or when an error occurs. When a
  bulk-delete answer carries object errors the source sends them to \<open>errCh\<close>, logs
  ``Terminating object deletion routine with error'' and goes on: on the batch
  \<open>a, b, c\<close>, with an error reported for \<open>b\<close> in the first answer, two more bulk-delete
  calls follow the error; and against a store that reports an error and deletes nothing
  the loop is still running after ten calls on the same batch.
\<close>

theorem bulkDeleteLoop_continues_after_error:
  "bulkDeleteLoop 10 one_error_then_ok [''a'', ''b'', ''c''] [] [] =
     (Returned, [ [''a'', ''b'', ''c''], [''b'', ''c''], [''c''] ],
      [Errorf ''cannot delete object b: 409 Conflict''])
   \<and> fst (bulkDeleteLoop 10 always_error [''a'', ''b''] [] []) = OutOfFuel
   \<and> fst (snd (bulkDeleteLoop 10 always_error [''a'', ''b''] [] [])) = replicate 10 [''a'', ''b'']"
  by code_simp

subsection \<open>Interfaces of a router\<close>

lemma isClusterSubnet_iff:
  "isClusterSubnet allSubnets subnetID \<longleftrightarrow> subnetID \<in> Subnet_ID ` set allSubnets"
  by (induction allSubnets) auto

lemma removal_inv_custom:
  "removal_inv cr subs st \<Longrightarrow>
     removal_inv cr subs (st\<lparr>st_customInterfaces := st_customInterfaces st @ [port]\<rparr>)"
  by (simp add: removal_inv_def)

lemma removal_inv_removed:
  assumes "removal_inv cr subs st"
    and "\<not> st_removedSubnets st subnetID"
    and "cr \<or> subnetID \<in> Subnet_ID ` set subs"
  shows "removal_inv cr subs
     (st\<lparr>st_removedSubnets := (st_removedSubnets st)(subnetID := True),
         st_numberDeleted := st_numberDeleted st + 1,
         st_removeCalls := st_removeCalls st @ [subnetID]\<rparr>)"
  using assms by (auto simp: removal_inv_def)

lemma removal_inv_early_return:
  assumes "removal_inv cr subs st"
    and "\<not> st_removedSubnets st subnetID"
    and "cr \<or> subnetID \<in> Subnet_ID ` set subs"
  shows "distinct (st_removeCalls st @ [subnetID])
     \<and> (\<not> cr \<longrightarrow> set (st_removeCalls st @ [subnetID]) \<subseteq> Subnet_ID ` set subs)"
  using assms by (auto simp: removal_inv_def)

lemma fixedIPsLoop_inv:
  assumes "removal_inv cr subs st"
  shows "case fixedIPsLoop cr subs rm port ips st of
           Inl calls \<Rightarrow> distinct calls \<and> (\<not> cr \<longrightarrow> set calls \<subseteq> Subnet_ID ` set subs)
                         \<and> \<not> (\<forall>subnetID err. rm subnetID = Some err \<longrightarrow> ResponseCodeIs err StatusNotFound)
         | Inr st' \<Rightarrow> removal_inv cr subs st'
             \<and> length (st_customInterfaces st') =
                 length (st_customInterfaces st)
                 + length (filter (\<lambda>ip. \<not> cr \<and> IP_SubnetID ip \<notin> Subnet_ID ` set subs) ips)"
  using assms
proof (induction ips arbitrary: st)
  case Nil
  then show ?case by simp
next
  case (Cons ip rest)
  let ?s = "IP_SubnetID ip"
  show ?case
  proof (cases "\<not> cr \<and> \<not> isClusterSubnet subs ?s")
    case True
    have "removal_inv cr subs (st\<lparr>st_customInterfaces := st_customInterfaces st @ [port]\<rparr>)"
      using Cons.prems by (rule removal_inv_custom)
    from Cons.IH [OF this] True show ?thesis
      by (simp add: isClusterSubnet_iff split: sum.splits)
  next
    case False
    then have mine: "cr \<or> ?s \<in> Subnet_ID ` set subs"
      by (auto simp: isClusterSubnet_iff)
    show ?thesis
    proof (cases "st_removedSubnets st ?s")
      case True
      from Cons.IH [OF Cons.prems] False True mine show ?thesis
        by (auto simp: isClusterSubnet_iff split: sum.splits)
    next
      case fresh: False
      let ?st = "st\<lparr>st_removedSubnets := (st_removedSubnets st)(?s := True),
                    st_numberDeleted := st_numberDeleted st + 1,
                    st_removeCalls := st_removeCalls st @ [?s]\<rparr>"
      have inv: "removal_inv cr subs ?st"
        using Cons.prems fresh mine by (rule removal_inv_removed)
      have early: "distinct (st_removeCalls st @ [?s])
          \<and> (\<not> cr \<longrightarrow> set (st_removeCalls st @ [?s]) \<subseteq> Subnet_ID ` set subs)"
        using Cons.prems fresh mine by (rule removal_inv_early_return)
      have custom: "st_customInterfaces ?st = st_customInterfaces st"
        by simp
      show ?thesis
      proof (cases "rm ?s")
        case None
        with Cons.IH [OF inv] False fresh mine custom show ?thesis
          by (auto simp: isClusterSubnet_iff split: sum.splits)
      next
        case (Some err)
        show ?thesis
        proof (cases "ResponseCodeIs err StatusNotFound")
          case True
          with Some Cons.IH [OF inv] False fresh mine custom show ?thesis
            by (auto simp: isClusterSubnet_iff split: sum.splits)
        next
          case failed: False
          have "fixedIPsLoop cr subs rm port (ip # rest) st = Inl (st_removeCalls st @ [?s])"
            using False fresh Some failed by auto
          with early Some failed show ?thesis
            by auto
        qed
      qed
    qed
  qed
qed

lemma routerPortsLoop_inv:
  assumes "removal_inv cr subs st"
  shows "case routerPortsLoop cr subs rm allPorts st of
           Inl calls \<Rightarrow> distinct calls \<and> (\<not> cr \<longrightarrow> set calls \<subseteq> Subnet_ID ` set subs)
                         \<and> \<not> (\<forall>subnetID err. rm subnetID = Some err \<longrightarrow> ResponseCodeIs err StatusNotFound)
         | Inr st' \<Rightarrow> removal_inv cr subs st'
             \<and> length (st_customInterfaces st') =
                 length (st_customInterfaces st) + length (custom_interfaces cr subs allPorts)"
  using assms
proof (induction allPorts arbitrary: st)
  case Nil
  then show ?case by (simp add: custom_interfaces_def)
next
  case (Cons port rest)
  note inner = fixedIPsLoop_inv [OF Cons.prems, where rm = rm and port = port and ips = "Port_FixedIPs port"]
  show ?case
  proof (cases "fixedIPsLoop cr subs rm port (Port_FixedIPs port) st")
    case (Inl calls)
    with inner show ?thesis by simp
  next
    case (Inr st')
    with inner have inv: "removal_inv cr subs st'"
      and count: "length (st_customInterfaces st') =
                 length (st_customInterfaces st)
                 + length (filter (\<lambda>ip. \<not> cr \<and> IP_SubnetID ip \<notin> Subnet_ID ` set subs) (Port_FixedIPs port))"
      by simp_all
    from Cons.IH [OF inv] Inr count show ?thesis
      by (simp add: custom_interfaces_def split: sum.splits)
  qed
qed

text \<open>
  C8. Whatever the provider answers: no subnet gets more than one \<open>RemoveInterface\<close>
  call, however many fixed IPs of the router's ports lie on it; on a router without the
  exact cluster-ID tag every call is for a subnet of the cluster-tagged subnet list, so
  an interface on any other subnet is left alone; and when no call fails with an error
  other than not-found, the task reports whether the number of ports less the number
  of such left-alone interfaces equals the number of subnets detached.
\<close>

theorem foreign_router_interfaces:
  assumes "removeRouterInterfaces filters router (Extracted allPorts) (Extracted allSubnets) RemoveInterface
             = (result, calls)"
  shows "distinct calls
       \<and> (\<not> isClusterRouter (clusterTagOf filters) (Router_Tags router) \<longrightarrow>
            set calls \<subseteq> Subnet_ID ` set allSubnets)
       \<and> ((\<forall>subnetID err. RemoveInterface subnetID = Some err \<longrightarrow> ResponseCodeIs err StatusNotFound) \<longrightarrow>
            result =
              (int (length allPorts)
                 - int (length (custom_interfaces
                          (isClusterRouter (clusterTagOf filters) (Router_Tags router)) allSubnets allPorts))
               = int (length calls), None))"
proof -
  let ?cr = "isClusterRouter (clusterTagOf filters) (Router_Tags router)"
  let ?init = "\<lparr>st_numberDeleted = 0, st_customInterfaces = [],
                 st_removedSubnets = (\<lambda>subnetID. False), st_removeCalls = []\<rparr>"
  have init: "removal_inv ?cr allSubnets ?init"
    by (simp add: removal_inv_def)
  note loop = routerPortsLoop_inv [OF init, where rm = RemoveInterface and allPorts = allPorts]
  show ?thesis
  proof (cases "routerPortsLoop ?cr allSubnets RemoveInterface allPorts ?init")
    case (Inl early)
    then have "calls = early"
      using assms by (simp add: removeRouterInterfaces_def)
    with loop Inl show ?thesis by auto
  next
    case (Inr st)
    then have calls: "calls = st_removeCalls st"
      and result: "result = (int (length allPorts) - int (length (st_customInterfaces st))
                               = st_numberDeleted st, None)"
      using assms by (simp_all add: removeRouterInterfaces_def)
    from loop Inr have inv: "removal_inv ?cr allSubnets st"
      and count: "length (st_customInterfaces st) = length (custom_interfaces ?cr allSubnets allPorts)"
      by simp_all
    show ?thesis
      using inv count calls result by (simp add: removal_inv_def)
  qed
qed

theorem foreign_router_interfaces_witness:
  "removeRouterInterfaces [(''openshiftClusterID'', ''abc'')] foreign_router
      (Extracted foreign_router_ports) (Extracted cluster_subnets) deleted_ok
     = ((True, None), [''subnet-cluster''])
   \<and> \<not> isClusterRouter (clusterTagOf [(''openshiftClusterID'', ''abc'')]) (Router_Tags foreign_router)
   \<and> set [''subnet-cluster''] \<subseteq> Subnet_ID ` set cluster_subnets
   \<and> (True, None) =
       (int (length foreign_router_ports)
          - int (length (custom_interfaces
                   (isClusterRouter (clusterTagOf [(''openshiftClusterID'', ''abc'')])
                      (Router_Tags foreign_router))
                   cluster_subnets foreign_router_ports))
        = int (length [''subnet-cluster'']), None)
   \<and> length (custom_interfaces False cluster_subnets foreign_router_ports) = 1
   \<and> removeRouterInterfaces [(''openshiftClusterID'', ''abc'')] foreign_router
      (Extracted two_ips_port) (Extracted cluster_subnets) deleted_ok
     = ((True, None), [''subnet-cluster''])"
proof -
  have run: "removeRouterInterfaces [(''openshiftClusterID'', ''abc'')] foreign_router
      (Extracted foreign_router_ports) (Extracted cluster_subnets) deleted_ok
     = ((True, None), [''subnet-cluster''])"
    by code_simp
  have run2: "removeRouterInterfaces [(''openshiftClusterID'', ''abc'')] foreign_router
      (Extracted two_ips_port) (Extracted cluster_subnets) deleted_ok
     = ((True, None), [''subnet-cluster''])"
    by code_simp
  have foreign: "\<not> isClusterRouter (clusterTagOf [(''openshiftClusterID'', ''abc'')]) (Router_Tags foreign_router)"
    by code_simp
  have ok: "\<forall>subnetID err. deleted_ok subnetID = Some err \<longrightarrow> ResponseCodeIs err StatusNotFound"
    by (simp add: deleted_ok_def)
  have custom: "length (custom_interfaces False cluster_subnets foreign_router_ports) = 1"
    by (simp add: custom_interfaces_def cluster_subnets_def foreign_router_ports_def)
  have "set [''subnet-cluster''] \<subseteq> Subnet_ID ` set cluster_subnets
      \<and> (True, None) =
       (int (length foreign_router_ports)
          - int (length (custom_interfaces
                   (isClusterRouter (clusterTagOf [(''openshiftClusterID'', ''abc'')])
                      (Router_Tags foreign_router))
                   cluster_subnets foreign_router_ports))
        = int (length [''subnet-cluster'']), None)"
    using foreign_router_interfaces [OF run] foreign ok by blast
  with run run2 foreign custom show ?thesis
    by blast
qed

subsection \<open>The order of the phases of Run\<close>

lemma snoc_split:
  "t @ [e] = pre @ x # post \<Longrightarrow>
     (pre = t \<and> x = e \<and> post = []) \<or> (\<exists>post'. t = pre @ x # post' \<and> post = post' @ [e])"
  by (cases post rule: rev_cases) auto

lemma signals_before_routers_snoc:
  assumes "signals_before_routers t" and "e \<noteq> RoutersStarted"
  shows "signals_before_routers (t @ [e])"
  unfolding signals_before_routers_def
proof (intro allI impI)
  fix pre post
  assume "t @ [e] = pre @ RoutersStarted # post"
  from snoc_split [OF this] assms(2) obtain post' where "t = pre @ RoutersStarted # post'"
    by auto
  with assms(1) show "\<forall>name \<in> set deleteFuncNames. Signal name \<in> set pre"
    unfolding signals_before_routers_def by blast
qed

lemma signals_before_routers_start:
  assumes "signals_before_routers t" and "\<forall>name \<in> set deleteFuncNames. Signal name \<in> set t"
  shows "signals_before_routers (t @ [RoutersStarted])"
  unfolding signals_before_routers_def
proof (intro allI impI)
  fix pre post
  assume "t @ [RoutersStarted] = pre @ RoutersStarted # post"
  from snoc_split [OF this] show "\<forall>name \<in> set deleteFuncNames. Signal name \<in> set pre"
  proof
    assume "pre = t \<and> RoutersStarted = RoutersStarted \<and> post = []"
    with assms(2) show ?thesis by simp
  next
    assume "\<exists>post'. t = pre @ RoutersStarted # post' \<and> post = post' @ [RoutersStarted]"
    with assms(1) show ?thesis
      unfolding signals_before_routers_def by blast
  qed
qed

lemma routers_before_untag_snoc:
  assumes "routers_before_untag t" and "e \<noteq> UntagStarted"
  shows "routers_before_untag (t @ [e])"
  unfolding routers_before_untag_def
proof (intro allI impI)
  fix pre post
  assume "t @ [e] = pre @ UntagStarted # post"
  from snoc_split [OF this] assms(2) obtain post' where "t = pre @ UntagStarted # post'"
    by auto
  with assms(1) show "RoutersDone None \<in> set pre"
    unfolding routers_before_untag_def by blast
qed

lemma routers_before_untag_start:
  assumes "routers_before_untag t" and "RoutersDone None \<in> set t"
  shows "routers_before_untag (t @ [UntagStarted])"
  unfolding routers_before_untag_def
proof (intro allI impI)
  fix pre post
  assume "t @ [UntagStarted] = pre @ UntagStarted # post"
  from snoc_split [OF this] show "RoutersDone None \<in> set pre"
  proof
    assume "pre = t \<and> UntagStarted = UntagStarted \<and> post = []"
    with assms(2) show ?thesis by simp
  next
    assume "\<exists>post'. t = pre @ UntagStarted # post' \<and> post = post' @ [UntagStarted]"
    with assms(1) show ?thesis
      unfolding routers_before_untag_def by blast
  qed
qed

lemma distinct_deleteFuncNames: "distinct deleteFuncNames"
  by (simp add: deleteFuncNames_def)

lemma run_inv_init:
  "run_inv \<lparr>run_running = deleteFuncNames, run_received = 0, run_phase = FanIn, run_trace = []\<rparr>"
  by (simp add: run_inv_def distinct_deleteFuncNames signals_before_routers_def
      routers_before_untag_def)

lemma run_inv_TaskCompletes:
  assumes "run_inv s"
  shows "run_inv (step s (TaskCompletes name))"
proof (cases "run_phase s = FanIn \<and> name \<in> set (run_running s)
         \<and> run_received s < length deleteFuncNames")
  case False
  then have "step s (TaskCompletes name) = s"
    by (simp only: step.simps if_False)
  with assms show ?thesis by simp
next
  case True
  let ?s' = "s\<lparr>run_running := removeAll name (run_running s),
             run_received := run_received s + 1,
             run_trace := run_trace s @ [Signal name]\<rparr>"
  have s': "step s (TaskCompletes name) = ?s'"
    using True by simp
  have dist: "distinct (run_running s)"
    and count: "run_received s + length (run_running s) = length deleteFuncNames"
    using assms True by (simp_all add: run_inv_def)
  have "removeAll name (run_running s) = remove1 name (run_running s)"
    using dist by (simp add: distinct_remove1_removeAll)
  then have len: "length (removeAll name (run_running s)) = length (run_running s) - 1"
    using True by (simp add: length_remove1)
  have pos: "length (run_running s) > 0"
    using True by (cases "run_running s") auto
  have a: "signals_before_routers (run_trace s @ [Signal name])"
    using assms by (intro signals_before_routers_snoc) (simp_all add: run_inv_def)
  have b: "routers_before_untag (run_trace s @ [Signal name])"
    using assms by (intro routers_before_untag_snoc) (simp_all add: run_inv_def)
  have c: "\<forall>n \<in> set deleteFuncNames. n \<notin> set (removeAll name (run_running s))
      \<longrightarrow> Signal n \<in> set (run_trace s @ [Signal name])"
    using assms by (auto simp: run_inv_def)
  have d1: "distinct (removeAll name (run_running s))"
    using dist by (simp add: distinct_removeAll)
  have d2: "run_received s + 1 + length (removeAll name (run_running s)) = length deleteFuncNames"
    using count len pos by arith
  show ?thesis
    unfolding s' using a b c d1 d2 by (simp add: run_inv_def)
qed

lemma run_inv_TaskFails:
  assumes "run_inv s"
  shows "run_inv (step s (TaskFails name))"
proof (cases "run_phase s \<noteq> Exited \<and> name \<in> set (run_running s)")
  case False
  then have "step s (TaskFails name) = s"
    by (simp only: step.simps if_False)
  with assms show ?thesis by simp
next
  case True
  have s': "step s (TaskFails name) = s\<lparr>run_phase := Exited, run_trace := run_trace s @ [FatalExit name]\<rparr>"
    using True by simp
  have a: "signals_before_routers (run_trace s @ [FatalExit name])"
    using assms by (intro signals_before_routers_snoc) (simp_all add: run_inv_def)
  have b: "routers_before_untag (run_trace s @ [FatalExit name])"
    using assms by (intro routers_before_untag_snoc) (simp_all add: run_inv_def)
  have c: "\<forall>n \<in> set deleteFuncNames. n \<notin> set (run_running s)
      \<longrightarrow> Signal n \<in> set (run_trace s @ [FatalExit name])"
    using assms by (auto simp: run_inv_def)
  show ?thesis
    unfolding s' using a b c by (simp add: run_inv_def)
qed


lemma run_inv_MainProceeds:
  assumes "run_inv s"
  shows "run_inv (step s (MainProceeds result))"
proof (cases "run_phase s")
  case FanIn
  show ?thesis
  proof (cases "run_received s < length deleteFuncNames")
    case True
    with FanIn assms show ?thesis by simp
  next
    case False
    have s': "step s (MainProceeds result) =
        s\<lparr>run_phase := Routers, run_trace := run_trace s @ [RoutersStarted]\<rparr>"
      using FanIn False by simp
    have "run_received s + length (run_running s) = length deleteFuncNames"
      using assms FanIn by (simp add: run_inv_def)
    with False have "length (run_running s) = 0" by arith
    then have "run_running s = []" by simp
    then have all: "\<forall>name \<in> set deleteFuncNames. Signal name \<in> set (run_trace s)"
      using assms by (simp add: run_inv_def)
    have a: "signals_before_routers (run_trace s @ [RoutersStarted])"
      using assms all by (intro signals_before_routers_start) (simp_all add: run_inv_def)
    have b: "routers_before_untag (run_trace s @ [RoutersStarted])"
      using assms by (intro routers_before_untag_snoc) (simp_all add: run_inv_def)
    show ?thesis
      unfolding s' using a b all by (simp add: run_inv_def)
  qed
next
  case Routers
  have sig: "\<forall>n \<in> set deleteFuncNames. n \<notin> set (run_running s) \<longrightarrow> Signal n \<in> set (run_trace s)"
    using assms by (simp add: run_inv_def)
  show ?thesis
  proof (cases result)
    case None
    have s': "step s (MainProceeds result) =
        s\<lparr>run_phase := Untag, run_trace := (run_trace s @ [RoutersDone None]) @ [UntagStarted]\<rparr>"
      using Routers None by simp
    have a1: "signals_before_routers (run_trace s @ [RoutersDone None])"
      using assms by (intro signals_before_routers_snoc) (simp_all add: run_inv_def)
    have a: "signals_before_routers ((run_trace s @ [RoutersDone None]) @ [UntagStarted])"
      using a1 by (rule signals_before_routers_snoc) simp
    have b1: "routers_before_untag (run_trace s @ [RoutersDone None])"
      using assms by (intro routers_before_untag_snoc) (simp_all add: run_inv_def)
    have b: "routers_before_untag ((run_trace s @ [RoutersDone None]) @ [UntagStarted])"
      using b1 by (rule routers_before_untag_start) simp
    show ?thesis
      unfolding s' using a b sig by (simp add: run_inv_def)
  next
    case (Some err)
    have s': "step s (MainProceeds result) =
        s\<lparr>run_phase := Finished (Some err), run_trace := run_trace s @ [RoutersDone (Some err)]\<rparr>"
      using Routers Some by simp
    have a: "signals_before_routers (run_trace s @ [RoutersDone (Some err)])"
      using assms by (intro signals_before_routers_snoc) (simp_all add: run_inv_def)
    have b: "routers_before_untag (run_trace s @ [RoutersDone (Some err)])"
      using assms by (intro routers_before_untag_snoc) (simp_all add: run_inv_def)
    show ?thesis
      unfolding s' using a b sig by (simp add: run_inv_def)
  qed
next
  case Untag
  have sig: "\<forall>n \<in> set deleteFuncNames. n \<notin> set (run_running s) \<longrightarrow> Signal n \<in> set (run_trace s)"
    using assms by (simp add: run_inv_def)
  have s': "step s (MainProceeds result) =
      s\<lparr>run_phase := Finished result, run_trace := run_trace s @ [UntagDone result]\<rparr>"
    using Untag by simp
  have a: "signals_before_routers (run_trace s @ [UntagDone result])"
    using assms by (intro signals_before_routers_snoc) (simp_all add: run_inv_def)
  have b: "routers_before_untag (run_trace s @ [UntagDone result])"
    using assms by (intro routers_before_untag_snoc) (simp_all add: run_inv_def)
  show ?thesis
    unfolding s' using a b sig by (simp add: run_inv_def)
next
  case (Finished err)
  with assms show ?thesis by simp
next
  case Exited
  with assms show ?thesis by simp
qed

lemma run_inv_step: "run_inv s \<Longrightarrow> run_inv (step s choice)"
  by (cases choice) (simp_all only: run_inv_TaskCompletes run_inv_TaskFails run_inv_MainProceeds)

lemma run_inv_schedule: "run_inv s \<Longrightarrow> run_inv (foldl step s schedule)"
  by (induction schedule arbitrary: s) (simp_all add: run_inv_step)

lemma run_inv_Run: "run_inv (Run None schedule)"
  using run_inv_schedule [OF run_inv_init] by (simp add: Run_def)

lemma Run_validation_failed: "run_trace (Run (Some err) schedule) = []"
  by (simp add: Run_def)

text \<open>
  C2. Under every schedule of the goroutines and every outcome of the runners: when
  \<open>deleteRouterRunner\<close> starts, the name of each of the sixteen deletion goroutines has
  been received from \<open>returnChannel\<close>; and when \<open>untagRunner\<close> starts,
  \<open>deleteRouterRunner\<close> has returned nil.
\<close>

theorem routers_after_barrier_untag_after_routers:
  "(run_trace (Run validateCloud schedule) = pre @ RoutersStarted # post \<longrightarrow>
      (\<forall>name \<in> set deleteFuncNames. Signal name \<in> set pre))
   \<and> (run_trace (Run validateCloud schedule) = pre' @ UntagStarted # post' \<longrightarrow>
      RoutersDone None \<in> set pre')"
proof (cases validateCloud)
  case None
  then show ?thesis
    using run_inv_Run [of schedule]
    unfolding run_inv_def signals_before_routers_def routers_before_untag_def
    by blast
next
  case (Some err)
  then show ?thesis
    by (simp add: Run_validation_failed)
qed

theorem routers_after_barrier_untag_after_routers_witness:
  "run_trace (Run None all_succeed) =
     map Signal deleteFuncNames @ RoutersStarted # [RoutersDone None, UntagStarted, UntagDone None]
   \<and> list_all (\<lambda>name. Signal name \<in> set (map Signal deleteFuncNames)) deleteFuncNames
   \<and> RoutersDone None \<in> set (map Signal deleteFuncNames @ [RoutersStarted, RoutersDone None])"
proof -
  have routers: "run_trace (Run None all_succeed) =
      map Signal deleteFuncNames @ RoutersStarted # [RoutersDone None, UntagStarted, UntagDone None]"
    by code_simp
  then have untag: "run_trace (Run None all_succeed) =
      (map Signal deleteFuncNames @ [RoutersStarted, RoutersDone None]) @ UntagStarted # [UntagDone None]"
    by simp
  note ordered = routers_after_barrier_untag_after_routers
      [where validateCloud = None and schedule = all_succeed
         and pre = "map Signal deleteFuncNames"
         and post = "[RoutersDone None, UntagStarted, UntagDone None]"
         and pre' = "map Signal deleteFuncNames @ [RoutersStarted, RoutersDone None]"
         and post' = "[UntagDone None]"]
  have "\<forall>name \<in> set deleteFuncNames. Signal name \<in> set (map Signal deleteFuncNames)"
    using ordered routers by blast
  then have signalled: "list_all (\<lambda>name. Signal name \<in> set (map Signal deleteFuncNames)) deleteFuncNames"
    by (simp only: list_all_iff)
  have returned_nil: "RoutersDone None \<in> set (map Signal deleteFuncNames @ [RoutersStarted, RoutersDone None])"
    using ordered untag by blast
  from routers signalled returned_nil show ?thesis
    by blast
qed

end
